theory Spec2Isabelle
  imports Complex_Main "HOL-Library.Word"
begin

section \<open>JavaScript strings\<close>

text \<open>
  A JavaScript string is a sequence of UTF-16 code units. The French messages of the
  sources are written with \<open>str\<close> for their ASCII parts and explicit code units
  for the rest (\<open>0xE9\<close> is e-acute, \<open>0xD83D, 0xDE0A\<close> the smiling face).
\<close>

type_synonym js_string = "16 word list"

definition str :: "string \<Rightarrow> js_string" where
  "str s = map of_char s"

text \<open>
  \<open>String.prototype.trim\<close> removes the code units of WhiteSpace and LineTerminator
  from both ends.
\<close>

definition isWhiteSpace :: "16 word \<Rightarrow> bool" where
  "isWhiteSpace c \<longleftrightarrow>
     c \<in> {0x9, 0xA, 0xB, 0xC, 0xD, 0x20, 0xA0, 0x1680, 0x2000, 0x2001, 0x2002, 0x2003,
          0x2004, 0x2005, 0x2006, 0x2007, 0x2008, 0x2009, 0x200A, 0x2028, 0x2029,
          0x202F, 0x205F, 0x3000, 0xFEFF}"

definition trim :: "js_string \<Rightarrow> js_string" where
  "trim s = rev (dropWhile isWhiteSpace (rev (dropWhile isWhiteSpace s)))"

text \<open>\<open>s.includes(p)\<close>: \<open>p\<close> occurs in \<open>s\<close> as a contiguous run.\<close>

fun startsWith :: "js_string \<Rightarrow> js_string \<Rightarrow> bool" where
  "startsWith s [] = True"
| "startsWith [] (p # ps) = False"
| "startsWith (c # cs) (p # ps) = (c = p \<and> startsWith cs ps)"

fun includes_str :: "js_string \<Rightarrow> js_string \<Rightarrow> bool" where
  "includes_str [] p = (p = [])"
| "includes_str (c # cs) p = (startsWith (c # cs) p \<or> includes_str cs p)"

section \<open>Data model (types.ts)\<close>

datatype QuestionType = LITERAL | INFERENTIAL | EVALUATIVE

text \<open>
  The fields \<open>id\<close>, \<open>text\<close> and \<open>type\<close> of \<open>Question\<close> carry a \<open>q\<close> prefix:
  \<open>id\<close> is the identity function of HOL.
\<close>

record Question =
  qid :: int
  qtext :: js_string
  qtype :: QuestionType

text \<open>
  \<open>EvaluationResult\<close> as the objects of the program have it: the Gateway's results
  carry \<open>score\<close> and no \<open>isIncomplete\<close>, the Engine's local result carries
  \<open>isIncomplete\<close> and \<open>correctAnswer: undefined\<close>. \<open>None\<close> is \<open>undefined\<close>.
\<close>

record EvaluationResult =
  isCorrect :: bool
  isIncomplete :: "bool option"
  score :: "rat option"
  feedback :: js_string
  correctAnswer :: "js_string option"

record UserScore =
  literal :: nat
  inferential :: nat
  evaluative :: nat
  total :: nat

record UserInfo =
  firstName :: js_string
  lastName :: js_string

datatype AppState = LOGIN | SETUP | LOADING_STORY | READING | QUIZ | RESULTS

text \<open>What a rejected promise or a \<open>throw\<close> carries.\<close>

datatype error = TransportError | SyntaxError | TypeError

section \<open>Question Engine (components/QuestionEngine.tsx)\<close>

datatype QuestionStatus = IDLE | CORRECT | INCORRECT_RETRY | FAILED_FINAL

text \<open>The four \<open>Map<number, _>\<close> of the component state, and the submission lock.\<close>

record engine =
  answers :: "int \<rightharpoonup> js_string"
  statuses :: "int \<rightharpoonup> QuestionStatus"
  feedbacks :: "int \<rightharpoonup> EvaluationResult"
  attempts :: "int \<rightharpoonup> nat"
  isEvaluating :: bool

definition initialEngine :: engine where
  "initialEngine = \<lparr>answers = Map.empty, statuses = Map.empty, feedbacks = Map.empty,
     attempts = Map.empty, isEvaluating = False\<rparr>"

text \<open>
  \<open>getQuestionState\<close>: each read is \<open>map.get(id) || default\<close>, so a missing entry
  and a falsy one (\<open>''\<close>, \<open>0\<close>) both give the default.
\<close>

record QuestionState =
  answer :: js_string
  status :: QuestionStatus
  feedbackOf :: "EvaluationResult option"
  attempt :: nat

definition getQuestionState :: "engine \<Rightarrow> int \<Rightarrow> QuestionState" where
  "getQuestionState s i =
     \<lparr>answer = (case answers s i of None \<Rightarrow> [] | Some a \<Rightarrow> a),
      status = (case statuses s i of None \<Rightarrow> IDLE | Some st \<Rightarrow> st),
      feedbackOf = feedbacks s i,
      attempt = (case attempts s i of None \<Rightarrow> 0 | Some n \<Rightarrow> n)\<rparr>"

definition handleAnswerChange :: "int \<Rightarrow> js_string \<Rightarrow> engine \<Rightarrow> engine" where
  "handleAnswerChange i val s = s\<lparr>answers := (answers s)(i \<mapsto> val)\<rparr>"

text \<open>
  The Gateway seen from the Engine: the \<open>n\<close>-th call of a submission (counting from 0),
  for a question and a student answer, resolves to a result or rejects. Every call made
  is logged with its outcome.
\<close>

type_synonym gateway = "nat \<Rightarrow> Question \<Rightarrow> js_string \<Rightarrow> error + EvaluationResult"

record call =
  callQuestion :: Question
  callAnswer :: js_string
  callOutcome :: "error + EvaluationResult"

definition questionsToEvaluate :: "engine \<Rightarrow> Question list \<Rightarrow> Question list" where
  "questionsToEvaluate s qs =
     filter (\<lambda>q. let st = status (getQuestionState s (qid q))
                 in st \<noteq> CORRECT \<and> st \<noteq> FAILED_FINAL) qs"

definition noAnswerRetry :: js_string where
  "noAnswerRetry = str ''Tu n'as pas r'' @ [0xE9] @ str ''pondu. Voici la r'' @ [0xE9]
     @ str ''ponse.''"

definition noAnswerFirst :: js_string where
  "noAnswerFirst = str ''Tu n'as pas r'' @ [0xE9] @ str ''pondu. Essaie d'' @ [0x27, 0xE9]
     @ str ''crire quelque chose !''"

text \<open>The result the Engine builds itself for an empty answer.\<close>

definition localResult :: "bool \<Rightarrow> EvaluationResult" where
  "localResult isRetry =
     \<lparr>isCorrect = False, isIncomplete = Some True, score = None,
      feedback = (if isRetry then noAnswerRetry else noAnswerFirst),
      correctAnswer = None\<rparr>"

text \<open>One element of the array that \<open>Promise.all\<close> is awaited on.\<close>

record pending =
  pendingId :: int
  pendingResult :: "error + EvaluationResult"
  pendingRetry :: bool

text \<open>
  \<open>questionsToEvaluate.map(async q => ...)\<close>: the callbacks start in list order, each
  one running up to its Gateway call, so the calls are issued in list order.
\<close>

fun evaluateBatch ::
  "gateway \<Rightarrow> engine \<Rightarrow> Question list \<Rightarrow> call list \<Rightarrow> pending list \<times> call list" where
  "evaluateBatch gw s [] calls = ([], calls)"
| "evaluateBatch gw s (q # qs) calls =
     (let st = getQuestionState s (qid q);
          isRetry = (attempt st > 0)
      in if trim (answer st) = []
         then (let (rs, calls') = evaluateBatch gw s qs calls
               in (\<lparr>pendingId = qid q, pendingResult = Inr (localResult isRetry),
                     pendingRetry = isRetry\<rparr> # rs, calls'))
         else (let out = gw (length calls) q (answer st);
                   (rs, calls') = evaluateBatch gw s qs
                      (calls @ [\<lparr>callQuestion = q, callAnswer = answer st, callOutcome = out\<rparr>])
               in (\<lparr>pendingId = qid q, pendingResult = out, pendingRetry = isRetry\<rparr> # rs,
                   calls')))"

text \<open>\<open>Promise.all\<close>: the array of results when every promise resolved, a rejection otherwise.\<close>

fun promiseAll :: "pending list \<Rightarrow> error + (int \<times> EvaluationResult \<times> bool) list" where
  "promiseAll [] = Inr []"
| "promiseAll (p # ps) =
     (case pendingResult p of
        Inl e \<Rightarrow> Inl e
      | Inr r \<Rightarrow> (case promiseAll ps of
                   Inl e \<Rightarrow> Inl e
                 | Inr rs \<Rightarrow> Inr ((pendingId p, r, pendingRetry p) # rs)))"

text \<open>The three maps the update loop writes to, copies of the state's.\<close>

record updates =
  newStatuses :: "int \<rightharpoonup> QuestionStatus"
  newFeedbacks :: "int \<rightharpoonup> EvaluationResult"
  newAttempts :: "int \<rightharpoonup> nat"

text \<open>The status and attempt writes of one loop iteration, after \<open>newFeedbacks.set\<close>.\<close>

definition applyResult :: "int \<Rightarrow> EvaluationResult \<Rightarrow> bool \<Rightarrow> updates \<Rightarrow> updates" where
  "applyResult i finalResult isRetry u =
     (let u1 = u\<lparr>newFeedbacks := (newFeedbacks u)(i \<mapsto> finalResult)\<rparr>
      in if isCorrect finalResult
         then u1\<lparr>newStatuses := (newStatuses u1)(i \<mapsto> CORRECT)\<rparr>
         else if \<not> isRetry
         then u1\<lparr>newStatuses := (newStatuses u1)(i \<mapsto> INCORRECT_RETRY),
                  newAttempts := (newAttempts u1)(i \<mapsto> 1)\<rparr>
         else u1\<lparr>newStatuses := (newStatuses u1)(i \<mapsto> FAILED_FINAL),
                  newAttempts := (newAttempts u1)(i \<mapsto> 2)\<rparr>)"

text \<open>
  \<open>for (const {id, result, isRetry} of results)\<close>: the awaited Gateway call for an empty
  answer on the retry, then the writes. A rejection leaves the loop; the calls made so
  far stay made.
\<close>

fun updateLoop ::
  "gateway \<Rightarrow> engine \<Rightarrow> Question list \<Rightarrow> (int \<times> EvaluationResult \<times> bool) list \<Rightarrow>
   updates \<Rightarrow> call list \<Rightarrow> (error + updates) \<times> call list" where
  "updateLoop gw s qs [] u calls = (Inr u, calls)"
| "updateLoop gw s qs ((i, result, isRetry) # rs) u calls =
     (if trim (answer (getQuestionState s i)) = [] \<and> isRetry
         \<and> (correctAnswer result = None \<or> correctAnswer result = Some [])
      then (case find (\<lambda>q. qid q = i) qs of
              None \<Rightarrow> (Inl TypeError, calls)
            | Some q \<Rightarrow>
                (let out = gw (length calls) q [];
                     calls' = calls @ [\<lparr>callQuestion = q, callAnswer = [], callOutcome = out\<rparr>]
                 in case out of
                      Inl e \<Rightarrow> (Inl e, calls')
                    | Inr finalResult \<Rightarrow>
                        updateLoop gw s qs rs (applyResult i finalResult isRetry u) calls'))
      else updateLoop gw s qs rs (applyResult i result isRetry u) calls)"

text \<open>What a submission leaves behind: the state, the Gateway calls, and whether the
  \<open>catch\<close> block showed its alert.\<close>

record submission =
  engineAfter :: engine
  calls :: "call list"
  alerted :: bool

definition handleGlobalSubmit :: "gateway \<Rightarrow> Question list \<Rightarrow> engine \<Rightarrow> submission" where
  "handleGlobalSubmit gw qs s =
     (let toEvaluate = questionsToEvaluate s qs
      in if length toEvaluate = 0
         then \<lparr>engineAfter = s\<lparr>isEvaluating := False\<rparr>, calls = [], alerted = False\<rparr>
         else (let (ps, calls1) = evaluateBatch gw s toEvaluate []
               in case promiseAll ps of
                    Inl e \<Rightarrow> \<lparr>engineAfter = s\<lparr>isEvaluating := False\<rparr>, calls = calls1,
                              alerted = True\<rparr>
                  | Inr results \<Rightarrow>
                      (case updateLoop gw s qs results
                              \<lparr>newStatuses = statuses s, newFeedbacks = feedbacks s,
                               newAttempts = attempts s\<rparr> calls1 of
                         (Inl e, calls2) \<Rightarrow>
                            \<lparr>engineAfter = s\<lparr>isEvaluating := False\<rparr>, calls = calls2,
                             alerted = True\<rparr>
                       | (Inr u, calls2) \<Rightarrow>
                            \<lparr>engineAfter = s\<lparr>statuses := newStatuses u,
                                feedbacks := newFeedbacks u, attempts := newAttempts u,
                                isEvaluating := False\<rparr>,
                             calls = calls2, alerted = False\<rparr>)))"

definition isAllComplete :: "Question list \<Rightarrow> engine \<Rightarrow> bool" where
  "isAllComplete qs s =
     list_all (\<lambda>q. statuses s (qid q) = Some CORRECT \<or> statuses s (qid q) = Some FAILED_FINAL) qs"

text \<open>
  An element of the array \<open>finishQuiz\<close> hands to \<open>onComplete\<close>. Its fields carry an
  \<open>r\<close> prefix; \<open>None\<close> is \<open>undefined\<close>.
\<close>

record Result =
  rQuestion :: Question
  rUserAnswer :: "js_string option"
  rIsCorrect :: bool
  rFeedback :: "js_string option"
  rCorrectAnswer :: "js_string option"

definition finishQuiz :: "Question list \<Rightarrow> engine \<Rightarrow> Result list" where
  "finishQuiz qs s =
     map (\<lambda>q. \<lparr>rQuestion = q,
               rUserAnswer = answers s (qid q),
               rIsCorrect = (statuses s (qid q) = Some CORRECT),
               rFeedback = map_option feedback (feedbacks s (qid q)),
               rCorrectAnswer = Option.bind (feedbacks s (qid q)) correctAnswer\<rparr>) qs"

section \<open>Session Orchestrator (App.tsx)\<close>

record GlossaryItem =
  word :: js_string
  definition_of :: js_string

record StoryData =
  title :: js_string
  content :: js_string
  imageUrl :: "js_string option"
  glossary :: "GlossaryItem list"
  questions :: "Question list"

text \<open>The six \<open>useState\<close> cells of \<open>App\<close>.\<close>

record app =
  appState :: AppState
  userInfo :: UserInfo
  storyData :: "StoryData option"
  results :: "Result list"
  finalFeedback :: js_string
  finalScores :: UserScore

definition initialApp :: app where
  "initialApp = \<lparr>appState = LOGIN, userInfo = \<lparr>firstName = [], lastName = []\<rparr>,
     storyData = None, results = [], finalFeedback = [],
     finalScores = \<lparr>literal = 0, inferential = 0, evaluative = 0, total = 0\<rparr>\<rparr>"

definition handleLogin :: "app \<Rightarrow> app" where
  "handleLogin a =
     (if trim (firstName (userInfo a)) \<noteq> [] \<and> trim (lastName (userInfo a)) \<noteq> []
      then a\<lparr>appState := SETUP\<rparr> else a)"

text \<open>The two \<open>onChange\<close> handlers of the login form.\<close>

definition changeFirstName :: "js_string \<Rightarrow> app \<Rightarrow> app" where
  "changeFirstName v a = a\<lparr>userInfo := (userInfo a)\<lparr>firstName := v\<rparr>\<rparr>"

definition changeLastName :: "js_string \<Rightarrow> app \<Rightarrow> app" where
  "changeLastName v a = a\<lparr>userInfo := (userInfo a)\<lparr>lastName := v\<rparr>\<rparr>"

text \<open>
  \<open>startAssessment\<close>, given what the awaited \<open>generateAssessment\<close> call came to, at the
  type \<open>Promise<StoryData>\<close> that call is declared with.
\<close>

definition startAssessment :: "error + StoryData \<Rightarrow> js_string \<Rightarrow> app \<Rightarrow> app" where
  "startAssessment outcome fullDataUrl a =
     (case outcome of
        Inr data \<Rightarrow> a\<lparr>storyData := Some (data\<lparr>imageUrl := Some fullDataUrl\<rparr>),
                      appState := READING\<rparr>
      | Inl e \<Rightarrow> a\<lparr>appState := SETUP\<rparr>)"

definition handleReadingComplete :: "app \<Rightarrow> app" where
  "handleReadingComplete a = a\<lparr>appState := QUIZ\<rparr>"

text \<open>The body of the \<open>forEach\<close> of \<open>calculateScores\<close>, on the three counters
  (\<open>inf\<close> is written \<open>infScore\<close>: \<open>inf\<close> is the infimum of HOL).\<close>

definition addPoints :: "nat \<times> nat \<times> nat \<Rightarrow> Result \<Rightarrow> nat \<times> nat \<times> nat" where
  "addPoints acc r =
     (case acc of (lit, infScore, evalScore) \<Rightarrow>
        (let points = (if rIsCorrect r then 1 else 0);
             lit1 = (if qtype (rQuestion r) = LITERAL then lit + points else lit);
             inf1 = (if qtype (rQuestion r) = INFERENTIAL then infScore + points else infScore);
             eval1 = (if qtype (rQuestion r) = EVALUATIVE then evalScore + points else evalScore)
         in (lit1, inf1, eval1)))"

text \<open>
  \<open>calculateScores\<close>. The final-feedback operation of the Gateway is called with the
  total, \<open>10\<close> and the first name; when it rejects, nothing catches, and the two state
  writes after the \<open>await\<close> do not happen.
\<close>

type_synonym feedbackGateway = "nat \<Rightarrow> nat \<Rightarrow> js_string \<Rightarrow> error + js_string"

definition calculateScores :: "feedbackGateway \<Rightarrow> Result list \<Rightarrow> app \<Rightarrow> app" where
  "calculateScores generateFinalFeedback quizResults a =
     (case foldl addPoints (0, 0, 0) quizResults of (lit, infScore, evalScore) \<Rightarrow>
        (let tot = lit + infScore + evalScore;
             a1 = a\<lparr>finalScores := \<lparr>literal = lit, inferential = infScore,
                       evaluative = evalScore, total = tot\<rparr>,
                    results := quizResults\<rparr>
         in case generateFinalFeedback tot 10 (firstName (userInfo a)) of
              Inl e \<Rightarrow> a1
            | Inr feedbackText \<Rightarrow> a1\<lparr>finalFeedback := feedbackText, appState := RESULTS\<rparr>))"

text \<open>\<open>handleQuit\<close>, given the answer to the \<open>confirm\<close> dialogue.\<close>

definition handleQuit :: "bool \<Rightarrow> app \<Rightarrow> app" where
  "handleQuit confirmed a =
     (if confirmed
      then a\<lparr>userInfo := \<lparr>firstName = [], lastName = []\<rparr>, storyData := None,
             results := [], appState := LOGIN\<rparr>
      else a)"

section \<open>LLM Gateway (services/geminiService.ts, lines 484 to 765)\<close>

text \<open>
  The file holds three variants of the module, one after the other. The operations
  below are those of the last one (from line 484), which has the content guard of
  \<open>generateAssessment\<close> and the cleaning step of \<open>evaluateAnswer\<close>. The
  \<open>evaluateAnswer\<close> of the first variant (from line 1), which has no cleaning step,
  follows as \<open>evaluateAnswer1\<close>. The second variant (from line 197) also catches a
  rejected model call in \<open>evaluateAnswer\<close>.
\<close>

text \<open>
  The values \<open>JSON.parse\<close> produces, and what the code makes of them. An array is an
  object too and can be given properties of its own; \<open>JSON.parse\<close> yields arrays
  without any.
\<close>

datatype jsval =
    JNull
  | JBool bool
  | JNum rat
  | JStr js_string
  | JArr "jsval list" "(js_string \<times> jsval) list"
  | JObj "(js_string \<times> jsval) list"

text \<open>
  Reading a property that is neither an index nor \<open>length\<close>: \<open>None\<close> is
  \<open>undefined\<close>; reading from \<open>null\<close> throws.
\<close>

fun getProp :: "jsval \<Rightarrow> js_string \<Rightarrow> error + jsval option" where
  "getProp JNull k = Inl TypeError"
| "getProp (JObj fs) k = Inr (map_of fs k)"
| "getProp (JArr xs fs) k = Inr (map_of fs k)"
| "getProp v k = Inr None"

fun truthy :: "jsval option \<Rightarrow> bool" where
  "truthy None = False"
| "truthy (Some JNull) = False"
| "truthy (Some (JBool b)) = b"
| "truthy (Some (JNum n)) = (n \<noteq> 0)"
| "truthy (Some (JStr t)) = (t \<noteq> [])"
| "truthy (Some v) = True"

fun setField :: "(js_string \<times> jsval) list \<Rightarrow> js_string \<Rightarrow> jsval \<Rightarrow> (js_string \<times> jsval) list" where
  "setField [] k v = [(k, v)]"
| "setField ((k', v') # fs) k v = (if k' = k then (k, v) # fs else (k', v') # setField fs k v)"

text \<open>Assigning a property in module (strict) code: a primitive or \<open>null\<close> throws.\<close>

fun setProp :: "jsval \<Rightarrow> js_string \<Rightarrow> jsval \<Rightarrow> error + jsval" where
  "setProp (JObj fs) k v = Inr (JObj (setField fs k v))"
| "setProp (JArr xs fs) k v = Inr (JArr xs (setField fs k v))"
| "setProp d k v = Inl TypeError"

text \<open>
  The response object of the SDK, as far as \<open>extractTextFromResponse\<close> looks at it:
  \<open>output_text\<close> when it is a string; for a truthy \<open>response.response.text\<close>,
  what the call \<open>response.response.text()\<close> comes to, a string or a throw (the
  member need not be a function, and the function may throw); and the text of the first
  part of the first candidate.
\<close>

record llm_response =
  output_text :: "js_string option"
  response_text :: "(error + js_string) option"
  candidate_text :: "js_string option"

text \<open>The helper returns the raw text, or throws what that call throws.\<close>

definition extractTextFromResponse :: "llm_response option \<Rightarrow> error + js_string" where
  "extractTextFromResponse response =
     (case response of
        None \<Rightarrow> Inr (str ''{}'')
      | Some r \<Rightarrow>
          (case output_text r of
             Some t \<Rightarrow> Inr t
           | None \<Rightarrow>
               (case response_text r of
                  Some called \<Rightarrow> called
                | None \<Rightarrow>
                    (case candidate_text r of
                       Some t \<Rightarrow> if t \<noteq> [] then Inr t else Inr (str ''{}'')
                     | None \<Rightarrow> Inr (str ''{}'')))))"

text \<open>
  \<open>JSON.parse\<close> is the host's: a parameter of the operations below, \<open>None\<close> when it
  throws. \<open>toLowerCase\<close> is the host's as well. The model call is a parameter too: it
  resolves to a response (possibly a falsy one) or rejects.
\<close>

type_synonym json_parse = "js_string \<Rightarrow> jsval option"

type_synonym imageClient = "js_string \<Rightarrow> error + llm_response option"

definition contentSentinel :: js_string where
  "contentSentinel = str ''[ERREUR] Le texte n'a pas '' @ [0xE9] @ str ''t'' @ [0xE9]
     @ str '' correctement extrait de l'image.''"

definition cleanBase64 :: "js_string \<Rightarrow> js_string" where
  "cleanBase64 base64Image =
     (if includes_str base64Image [0x2C]
      then takeWhile (\<lambda>c. c \<noteq> 0x2C) (tl (dropWhile (\<lambda>c. c \<noteq> 0x2C) base64Image))
      else base64Image)"

text \<open>
  The guard \<open>!data.content || !data.content.trim()\<close>: whether the sentinel is to be
  written. A truthy \<open>content\<close> that is not a string has no callable \<open>trim\<close>.
\<close>

fun contentMissing :: "jsval option \<Rightarrow> error + bool" where
  "contentMissing (Some (JStr t)) = Inr (t = [] \<or> trim t = [])"
| "contentMissing v = (if truthy v then Inl TypeError else Inr True)"

definition generateAssessment :: "json_parse \<Rightarrow> imageClient \<Rightarrow> js_string \<Rightarrow> error + jsval" where
  "generateAssessment JSON_parse generateContent base64Image =
     (case generateContent (cleanBase64 base64Image) of
        Inl e \<Rightarrow> Inl e
      | Inr response \<Rightarrow>
          (case extractTextFromResponse response of
             Inl e \<Rightarrow> Inl e
           | Inr raw \<Rightarrow>
               (case JSON_parse raw of
                  None \<Rightarrow> Inl SyntaxError
                | Some data \<Rightarrow>
                    (case getProp data (str ''content'') of
                       Inl e \<Rightarrow> Inl e
                     | Inr c \<Rightarrow>
                         (case contentMissing c of
                            Inl e \<Rightarrow> Inl e
                          | Inr True \<Rightarrow> setProp data (str ''content'') (JStr contentSentinel)
                          | Inr False \<Rightarrow> Inr data)))))"

text \<open>
  The model call of \<open>evaluateAnswer\<close>: the prompt is a fixed text around the story's
  content, the question's text and the student's answer, so the call is a function of
  these three.
\<close>

type_synonym textClient = "js_string \<Rightarrow> js_string \<Rightarrow> js_string \<Rightarrow> error + llm_response option"

definition defaultFeedback :: js_string where
  "defaultFeedback = str ''Relis bien le texte et essaie d'expliquer avec tes propres mots ''
     @ [0xD83D, 0xDE0A]"

definition neutralFeedback :: js_string where
  "neutralFeedback = [0x52, 0xE9] @ str ''fl'' @ [0xE9] @ str ''chis bien '' @ [0xE0]
     @ str '' ce que dit le texte et essaie de r'' @ [0xE9] @ str ''pondre de fa'' @ [0xE7]
     @ str ''on plus pr'' @ [0xE9] @ str ''cise '' @ [0xD83D, 0xDE0A]"

definition technicalFeedback :: js_string where
  "technicalFeedback = str ''Je n'ai pas pu corriger ta r'' @ [0xE9] @ str ''ponse '' @ [0xE0]
     @ str '' cause d'un petit probl'' @ [0xE8] @ str ''me technique. R'' @ [0xE9]
     @ str ''essaie dans un instant '' @ [0xD83D, 0xDE0A]"

text \<open>The test of the cleaning step, on the lower-cased \<open>correctAnswer\<close>.\<close>

definition isHedging :: "js_string \<Rightarrow> bool" where
  "isHedging lower \<longleftrightarrow>
     includes_str lower (str ''je ne peux pas r'' @ [0xE9] @ str ''pondre'') \<or>
     (includes_str lower (str ''texte'') \<and> includes_str lower (str ''question'') \<and>
      (includes_str lower (str ''pas fournis'') \<or> includes_str lower (str ''non fournis'')))"

text \<open>The result of the \<open>catch\<close> block.\<close>

definition fallbackResult :: EvaluationResult where
  "fallbackResult = \<lparr>isCorrect = False, isIncomplete = None, score = Some 0,
     feedback = technicalFeedback, correctAnswer = Some []\<rparr>"

text \<open>The body of the \<open>try\<close> block after \<open>JSON.parse\<close>; a throw goes to the \<open>catch\<close>.\<close>

definition normalize :: "(js_string \<Rightarrow> js_string) \<Rightarrow> jsval \<Rightarrow> error + EvaluationResult" where
  "normalize toLowerCase parsed =
     (case getProp parsed (str ''feedback'') of
        Inl e \<Rightarrow> Inl e
      | Inr fb \<Rightarrow>
          (case getProp parsed (str ''correctAnswer'') of
             Inl e \<Rightarrow> Inl e
           | Inr ca \<Rightarrow>
               (case getProp parsed (str ''isCorrect'') of
                  Inl e \<Rightarrow> Inl e
                | Inr ic \<Rightarrow>
                    (case getProp parsed (str ''score'') of
                       Inl e \<Rightarrow> Inl e
                     | Inr sc \<Rightarrow>
                         (let feedback0 = (case fb of Some (JStr t) \<Rightarrow> t | _ \<Rightarrow> defaultFeedback);
                              correctAnswer0 = (case ca of Some (JStr t) \<Rightarrow> trim t | _ \<Rightarrow> []);
                              lower = toLowerCase correctAnswer0;
                              hedging = isHedging lower;
                              correctAnswer1 = (if hedging then [] else correctAnswer0);
                              feedback1 = (if hedging \<and> \<not> truthy fb then neutralFeedback
                                           else feedback0)
                          in Inr \<lparr>isCorrect = truthy ic, isIncomplete = None,
                                  score = Some (case sc of
                                      Some (JNum n) \<Rightarrow> if 0 \<le> n \<and> n \<le> 2 then n else 0
                                    | _ \<Rightarrow> 0),
                                  feedback = feedback1,
                                  correctAnswer = Some correctAnswer1\<rparr>)))))"

definition evaluateAnswer ::
  "json_parse \<Rightarrow> (js_string \<Rightarrow> js_string) \<Rightarrow> textClient \<Rightarrow>
   Question \<Rightarrow> js_string \<Rightarrow> StoryData \<Rightarrow> error + EvaluationResult" where
  "evaluateAnswer JSON_parse toLowerCase generateContent question studentAnswer story =
     (case generateContent (content story) (qtext question) studentAnswer of
        Inl e \<Rightarrow> Inl e
      | Inr response \<Rightarrow>
          (case extractTextFromResponse response of
             Inl e \<Rightarrow> Inl e
           | Inr raw \<Rightarrow>
               (case JSON_parse raw of
                  None \<Rightarrow> Inr fallbackResult
                | Some parsed \<Rightarrow>
                    (case normalize toLowerCase parsed of
                       Inl e \<Rightarrow> Inr fallbackResult
                     | Inr result \<Rightarrow> Inr result))))"

text \<open>
  \<open>evaluateAnswer\<close> of the first variant of the module (lines 106 to 157): the same
  model call and the same helper, then \<open>return JSON.parse(raw)\<close>, the parsed value as
  it is, or the object of the \<open>catch\<close> block when parsing throws.
\<close>

definition notUnderstoodFeedback :: js_string where
  "notUnderstoodFeedback = str ''Je n'ai pas compris ta r'' @ [0xE9]
     @ str ''ponse, essaie encore '' @ [0xD83D, 0xDE0A]"

definition evaluateAnswer1 ::
  "json_parse \<Rightarrow> textClient \<Rightarrow> Question \<Rightarrow> js_string \<Rightarrow> StoryData \<Rightarrow> error + jsval" where
  "evaluateAnswer1 JSON_parse generateContent question studentAnswer story =
     (case generateContent (content story) (qtext question) studentAnswer of
        Inl e \<Rightarrow> Inl e
      | Inr response \<Rightarrow>
          (case extractTextFromResponse response of
             Inl e \<Rightarrow> Inl e
           | Inr raw \<Rightarrow>
               (case JSON_parse raw of
                  Some parsed \<Rightarrow> Inr parsed
                | None \<Rightarrow>
                    Inr (JObj [(str ''isCorrect'', JBool False), (str ''score'', JNum 0),
                               (str ''feedback'', JStr notUnderstoodFeedback),
                               (str ''correctAnswer'', JStr [])]))))"

section \<open>Notions the properties are stated with\<close>

text \<open>A question takes part in a submission when its status is not terminal.\<close>

definition nonTerminal :: "engine \<Rightarrow> int \<Rightarrow> bool" where
  "nonTerminal s i \<longleftrightarrow> status (getQuestionState s i) \<noteq> CORRECT \<and>
     status (getQuestionState s i) \<noteq> FAILED_FINAL"

text \<open>The condition under which the update loop makes its own Gateway call.\<close>

definition forced :: "engine \<Rightarrow> int \<Rightarrow> EvaluationResult \<Rightarrow> bool \<Rightarrow> bool" where
  "forced s i r b \<longleftrightarrow> trim (answer (getQuestionState s i)) = [] \<and> b \<and>
     (correctAnswer r = None \<or> correctAnswer r = Some [])"

text \<open>
  The states of the Engine of a quiz: the initial one, and those that typing an answer
  or pressing submit (whatever the Gateway then answers) leads to.
\<close>

inductive reachable :: "Question list \<Rightarrow> engine \<Rightarrow> bool" for qs :: "Question list" where
  reachable_initial: "reachable qs initialEngine"
| reachable_change: "reachable qs s \<Longrightarrow> reachable qs (handleAnswerChange i val s)"
| reachable_submit: "reachable qs s \<Longrightarrow> reachable qs (engineAfter (handleGlobalSubmit gw qs s))"

text \<open>The attempt counter that goes with each status.\<close>

fun attemptFits :: "QuestionStatus \<Rightarrow> nat \<Rightarrow> bool" where
  "attemptFits IDLE n = (n = 0)"
| "attemptFits INCORRECT_RETRY n = (n = 1)"
| "attemptFits CORRECT n = (n \<le> 1)"
| "attemptFits FAILED_FINAL n = (n = 2)"

definition attemptsConsistent :: "Question list \<Rightarrow> engine \<Rightarrow> bool" where
  "attemptsConsistent qs s \<longleftrightarrow>
     (\<forall>q \<in> set qs. attemptFits (status (getQuestionState s (qid q)))
        (attempt (getQuestionState s (qid q))))"

text \<open>
  What the update loop has recorded at an id for an element \<open>(i, r, b)\<close> of the results:
  the final result \<open>fr\<close> and the status it decides, the attempt written for a result
  that is not correct, and where \<open>fr\<close> comes from (the loop's own Gateway call, made
  for the first question with that id, or \<open>r\<close> itself).
\<close>

definition recordedFor ::
  "engine \<Rightarrow> Question list \<Rightarrow> updates \<Rightarrow> call list \<Rightarrow> int \<Rightarrow> EvaluationResult \<Rightarrow> bool \<Rightarrow>
   EvaluationResult \<Rightarrow> bool" where
  "recordedFor s qs u' cs' i r b fr \<longleftrightarrow>
     newFeedbacks u' i = Some fr \<and>
     newStatuses u' i =
       Some (if isCorrect fr then CORRECT else if \<not> b then INCORRECT_RETRY else FAILED_FINAL) \<and>
     (\<not> isCorrect fr \<longrightarrow> newAttempts u' i = Some (if \<not> b then 1 else 2)) \<and>
     (if forced s i r b
      then \<exists>q. find (\<lambda>q. qid q = i) qs = Some q \<and>
             \<lparr>callQuestion = q, callAnswer = [], callOutcome = Inr fr\<rparr> \<in> set cs'
      else fr = r)"

text \<open>The points \<open>calculateScores\<close> is to give for one question type.\<close>

definition correctOfType :: "QuestionType \<Rightarrow> Result list \<Rightarrow> nat" where
  "correctOfType t rs = length (filter (\<lambda>r. rIsCorrect r \<and> qtype (rQuestion r) = t) rs)"

definition composition442 :: "Question list \<Rightarrow> bool" where
  "composition442 qs \<longleftrightarrow>
     length (filter (\<lambda>q. qtype q = LITERAL) qs) = 4 \<and>
     length (filter (\<lambda>q. qtype q = INFERENTIAL) qs) = 4 \<and>
     length (filter (\<lambda>q. qtype q = EVALUATIVE) qs) = 2"

text \<open>
  The invariants of a \<open>StoryData\<close>, read off the value the Gateway returns: ten
  questions, four, four and two of the three types, with distinct ids; a non-empty
  content; three to six glossary entries.
\<close>

definition hasType :: "string \<Rightarrow> jsval \<Rightarrow> bool" where
  "hasType t q \<longleftrightarrow> getProp q (str ''type'') = Inr (Some (JStr (str t)))"

definition storyInvariants :: "jsval \<Rightarrow> bool" where
  "storyInvariants data \<longleftrightarrow>
     (case getProp data (str ''questions'') of
        Inr (Some (JArr qs ps)) \<Rightarrow>
          length qs = 10 \<and>
          length (filter (hasType ''LITERAL'') qs) = 4 \<and>
          length (filter (hasType ''INFERENTIAL'') qs) = 4 \<and>
          length (filter (hasType ''EVALUATIVE'') qs) = 2 \<and>
          distinct (map (\<lambda>q. getProp q (str ''id'')) qs)
      | _ \<Rightarrow> False) \<and>
     (case getProp data (str ''content'') of
        Inr (Some (JStr c)) \<Rightarrow> c \<noteq> []
      | _ \<Rightarrow> False) \<and>
     (case getProp data (str ''glossary'') of
        Inr (Some (JArr g ps)) \<Rightarrow> 3 \<le> length g \<and> length g \<le> 6
      | _ \<Rightarrow> False)"

section \<open>A one-question quiz\<close>

definition exQuestion :: Question where
  "exQuestion = \<lparr>qid = 1, qtext = str ''Qui parle ?'', qtype = LITERAL\<rparr>"

definition rightGateway :: gateway where
  "rightGateway n q a = Inr \<lparr>isCorrect = True, isIncomplete = None, score = Some 2,
     feedback = str ''Bravo'', correctAnswer = Some (str ''Ali'')\<rparr>"

definition wrongGateway :: gateway where
  "wrongGateway n q a = Inr \<lparr>isCorrect = False, isIncomplete = None, score = Some 0,
     feedback = str ''Relis'', correctAnswer = Some (str ''Ali'')\<rparr>"

text \<open>The answer \<open>Ali\<close> typed and submitted, the Gateway finding it correct.\<close>

definition answeredEngine :: engine where
  "answeredEngine = engineAfter (handleGlobalSubmit rightGateway [exQuestion]
     (handleAnswerChange 1 (str ''Ali'') initialEngine))"

text \<open>Nothing typed, and submit pressed once, then twice.\<close>

definition emptyOnce :: engine where
  "emptyOnce = engineAfter (handleGlobalSubmit wrongGateway [exQuestion] initialEngine)"

definition emptyTwice :: engine where
  "emptyTwice = engineAfter (handleGlobalSubmit wrongGateway [exQuestion] emptyOnce)"

section \<open>Quizzes of two questions\<close>

text \<open>
  A second question with an id of its own, and one that repeats the id of the first
  (nothing in the program checks the ids the model gives).
\<close>

definition secondQuestion :: Question where
  "secondQuestion = \<lparr>qid = 2, qtext = str ''Pourquoi ?'', qtype = INFERENTIAL\<rparr>"

definition twinQuestion :: Question where
  "twinQuestion = \<lparr>qid = 1, qtext = str ''Pourquoi ?'', qtype = INFERENTIAL\<rparr>"

text \<open>Gateways that reject, at once or on the second call, and one that is wrong then right.\<close>

definition rejectingGateway :: gateway where
  "rejectingGateway n q a = Inl TransportError"

definition wrongThenRight :: gateway where
  "wrongThenRight n q a = (if n = 0 then wrongGateway n q a else rightGateway n q a)"

definition wrongThenReject :: gateway where
  "wrongThenReject n q a = (if n = 0 then wrongGateway n q a else Inl TransportError)"

text \<open>An answer typed for the first question, then one for the second as well.\<close>

definition typedEngine :: engine where
  "typedEngine = handleAnswerChange 1 (str ''x'') initialEngine"

definition bothTyped :: engine where
  "bothTyped = handleAnswerChange 2 (str ''y'') typedEngine"

text \<open>Nothing typed, and submit pressed once.\<close>

definition bothEmptyOnce :: engine where
  "bothEmptyOnce = engineAfter (handleGlobalSubmit wrongGateway [exQuestion, secondQuestion]
     initialEngine)"

definition twinEmptyOnce :: engine where
  "twinEmptyOnce = engineAfter (handleGlobalSubmit wrongGateway [exQuestion, twinQuestion]
     initialEngine)"

section \<open>A ten-question quiz and a marked state of it\<close>

definition tenQuestions :: "Question list" where
  "tenQuestions =
     [\<lparr>qid = 1, qtext = str ''Q1'', qtype = LITERAL\<rparr>,
      \<lparr>qid = 2, qtext = str ''Q2'', qtype = LITERAL\<rparr>,
      \<lparr>qid = 3, qtext = str ''Q3'', qtype = INFERENTIAL\<rparr>,
      \<lparr>qid = 4, qtext = str ''Q4'', qtype = LITERAL\<rparr>,
      \<lparr>qid = 5, qtext = str ''Q5'', qtype = INFERENTIAL\<rparr>,
      \<lparr>qid = 6, qtext = str ''Q6'', qtype = INFERENTIAL\<rparr>,
      \<lparr>qid = 7, qtext = str ''Q7'', qtype = EVALUATIVE\<rparr>,
      \<lparr>qid = 8, qtext = str ''Q8'', qtype = LITERAL\<rparr>,
      \<lparr>qid = 9, qtext = str ''Q9'', qtype = INFERENTIAL\<rparr>,
      \<lparr>qid = 10, qtext = str ''Q10'', qtype = EVALUATIVE\<rparr>]"

definition markedEngine :: engine where
  "markedEngine = initialEngine\<lparr>statuses :=
     [1 \<mapsto> CORRECT, 2 \<mapsto> FAILED_FINAL, 3 \<mapsto> CORRECT, 4 \<mapsto> FAILED_FINAL, 5 \<mapsto> CORRECT,
      6 \<mapsto> FAILED_FINAL, 7 \<mapsto> FAILED_FINAL, 8 \<mapsto> CORRECT, 9 \<mapsto> CORRECT, 10 \<mapsto> FAILED_FINAL]\<rparr>"

definition bravoFeedback :: feedbackGateway where
  "bravoFeedback tot mx name = Inr (str ''Bravo'')"

section \<open>Model calls and their parsing, for the examples\<close>

text \<open>A response that carries no text, as when the candidate was blocked.\<close>

definition noTextResponse :: llm_response where
  "noTextResponse = \<lparr>output_text = None, response_text = None, candidate_text = None\<rparr>"

definition noTextImageClient :: imageClient where
  "noTextImageClient base64 = Inr (Some noTextResponse)"

text \<open>
  \<open>JSON.parse\<close> on the two raw texts met with it: \<open>{}\<close> is the empty object, and
  \<open>Desole\<close> is no JSON.
\<close>

definition emptyObjectParse :: json_parse where
  "emptyObjectParse raw = (if raw = str ''{}'' then Some (JObj []) else None)"

text \<open>\<open>toLowerCase\<close> on Latin-1 text.\<close>

definition toLowerLatin1 :: "js_string \<Rightarrow> js_string" where
  "toLowerLatin1 s =
     map (\<lambda>c. if (0x41 \<le> c \<and> c \<le> 0x5A) \<or> (0xC0 \<le> c \<and> c \<le> 0xDE \<and> c \<noteq> 0xD7)
              then c + 0x20 else c) s"

definition exStory :: StoryData where
  "exStory = \<lparr>title = str ''Ali'', content = str ''Ali parle.'', imageUrl = None,
     glossary = [], questions = [exQuestion]\<rparr>"

definition failingClient :: textClient where
  "failingClient c q a = Inl TransportError"

definition garbledClient :: textClient where
  "garbledClient c q a = Inr (Some \<lparr>output_text = Some (str ''Desole''), response_text = None,
     candidate_text = None\<rparr>)"

text \<open>A response whose \<open>response.text\<close> is not a function: calling it throws.\<close>

definition throwingTextClient :: textClient where
  "throwingTextClient c q a = Inr (Some \<lparr>output_text = None, response_text = Some (Inl TypeError),
     candidate_text = None\<rparr>)"

text \<open>
  A model that answers in well-formed JSON with a given \<open>correctAnswer\<close> (one without
  quotes or backslashes), and \<open>JSON.parse\<close> on that text.
\<close>

definition refusalText :: js_string where
  "refusalText = str ''Je ne peux pas r'' @ [0xE9] @ str ''pondre sans le texte.''"

definition notProvidedText :: js_string where
  "notProvidedText = str ''Le texte n'est pas fourni.''"

definition answerJson :: "js_string \<Rightarrow> js_string" where
  "answerJson t = str ''{'' @ [0x22] @ str ''isCorrect'' @ [0x22] @ str '':false,'' @ [0x22]
     @ str ''score'' @ [0x22] @ str '':0,'' @ [0x22] @ str ''correctAnswer'' @ [0x22]
     @ str '':'' @ [0x22] @ t @ [0x22] @ str ''}''"

definition answerClient :: "js_string \<Rightarrow> textClient" where
  "answerClient t c q a = Inr (Some \<lparr>output_text = Some (answerJson t), response_text = None,
     candidate_text = None\<rparr>)"

definition answerParse :: "js_string \<Rightarrow> json_parse" where
  "answerParse t raw =
     (if raw = answerJson t
      then Some (JObj [(str ''isCorrect'', JBool False), (str ''score'', JNum 0),
                       (str ''correctAnswer'', JStr t)])
      else None)"

section \<open>Question Engine: lemmas on a submission\<close>


lemma evaluateBatch_calls_mono:
  "set cs \<subseteq> set (snd (evaluateBatch gw s qs cs))"
proof (induction qs arbitrary: cs)
  case Nil then show ?case by simp
next
  case (Cons q qs)
  show ?case
  proof (cases "trim (answer (getQuestionState s (qid q))) = []")
    case True
    with Cons.IH [of cs] show ?thesis by (simp add: Let_def case_prod_beta)
  next
    case False
    with Cons.IH [of "cs @ [\<lparr>callQuestion = q, callAnswer = answer (getQuestionState s (qid q)),
        callOutcome = gw (length cs) q (answer (getQuestionState s (qid q)))\<rparr>]"]
    show ?thesis by (auto simp: Let_def case_prod_beta)
  qed
qed

lemma evaluateBatch_pending:
  "map pendingId (fst (evaluateBatch gw s qs cs)) = map qid qs \<and>
   (\<forall>p \<in> set (fst (evaluateBatch gw s qs cs)).
      pendingRetry p = (attempt (getQuestionState s (pendingId p)) > 0) \<and>
      (trim (answer (getQuestionState s (pendingId p))) = [] \<longrightarrow>
         pendingResult p = Inr (localResult (pendingRetry p))))"
proof (induction qs arbitrary: cs)
  case Nil then show ?case by simp
next
  case (Cons q qs)
  show ?case
  proof (cases "trim (answer (getQuestionState s (qid q))) = []")
    case True
    with Cons.IH [of cs] show ?thesis by (simp add: Let_def case_prod_beta)
  next
    case False
    with Cons.IH [of "cs @ [\<lparr>callQuestion = q, callAnswer = answer (getQuestionState s (qid q)),
        callOutcome = gw (length cs) q (answer (getQuestionState s (qid q)))\<rparr>]"]
    show ?thesis by (simp add: Let_def case_prod_beta)
  qed
qed

lemma evaluateBatch_calls:
  "c \<in> set (snd (evaluateBatch gw s qs cs)) \<Longrightarrow>
   c \<in> set cs \<or> trim (answer (getQuestionState s (qid (callQuestion c)))) \<noteq> []"
proof (induction qs arbitrary: cs)
  case Nil then show ?case by simp
next
  case (Cons q qs)
  show ?case
  proof (cases "trim (answer (getQuestionState s (qid q))) = []")
    case True
    with Cons.prems Cons.IH [of cs] show ?thesis by (simp add: Let_def case_prod_beta)
  next
    case False
    with Cons.prems Cons.IH [of "cs @ [\<lparr>callQuestion = q, callAnswer = answer (getQuestionState s (qid q)),
        callOutcome = gw (length cs) q (answer (getQuestionState s (qid q)))\<rparr>]"]
    show ?thesis by (auto simp: Let_def case_prod_beta)
  qed
qed

lemma promiseAll_Inr:
  "promiseAll ps = Inr rs \<Longrightarrow>
   ps = map (\<lambda>(i, r, b). \<lparr>pendingId = i, pendingResult = Inr r, pendingRetry = b\<rparr>) rs"
  by (induction ps arbitrary: rs) (auto split: sum.splits)

lemma applyResult_other:
  "j \<noteq> i \<Longrightarrow> newStatuses (applyResult i r b u) j = newStatuses u j \<and>
     newFeedbacks (applyResult i r b u) j = newFeedbacks u j \<and>
     newAttempts (applyResult i r b u) j = newAttempts u j"
  by (simp add: applyResult_def Let_def)

lemma applyResult_same:
  "newFeedbacks (applyResult i r b u) i = Some r \<and>
   newStatuses (applyResult i r b u) i =
     Some (if isCorrect r then CORRECT else if \<not> b then INCORRECT_RETRY else FAILED_FINAL) \<and>
   newAttempts (applyResult i r b u) i =
     (if isCorrect r then newAttempts u i else Some (if \<not> b then 1 else 2))"
  by (simp add: applyResult_def Let_def)

lemma updateLoop_frame:
  "updateLoop gw s qs rs u cs = (Inr u', cs') \<Longrightarrow> j \<notin> fst ` set rs \<Longrightarrow>
   newStatuses u' j = newStatuses u j \<and> newFeedbacks u' j = newFeedbacks u j \<and>
   newAttempts u' j = newAttempts u j"
proof (induction gw s qs rs u cs rule: updateLoop.induct)
  case (1 gw s qs u cs)
  then show ?case by simp
next
  case (2 gw s qs i result isRetry rs u cs)
  then show ?case
    by (auto simp: Let_def applyResult_other split: if_splits option.splits sum.splits)
qed


lemma find_qid: "find (\<lambda>q. qid q = i) qs = Some q \<Longrightarrow> qid q = i \<and> q \<in> set qs"
  by (induction qs) (auto split: if_splits)

lemma updateLoop_calls_mono:
  "updateLoop gw s qs rs u cs = (x, cs') \<Longrightarrow> set cs \<subseteq> set cs'"
proof (induction gw s qs rs u cs rule: updateLoop.induct)
  case (1 gw s qs u cs)
  then show ?case by simp
next
  case (2 gw s qs i result isRetry rs u cs)
  then show ?case
    by (auto simp: Let_def split: if_splits option.splits sum.splits)
qed

lemma updateLoop_calls:
  "updateLoop gw s qs rs u cs = (x, cs') \<Longrightarrow> c \<in> set cs' \<Longrightarrow>
   c \<in> set cs \<or>
   (callAnswer c = [] \<and> callQuestion c \<in> set qs \<and>
    trim (answer (getQuestionState s (qid (callQuestion c)))) = [] \<and>
    (\<exists>r. (qid (callQuestion c), r, True) \<in> set rs))"
proof (induction gw s qs rs u cs rule: updateLoop.induct)
  case (1 gw s qs u cs)
  then show ?case by simp
next
  case (2 gw s qs i result isRetry rs u cs)
  then show ?case
    by (fastforce simp: Let_def dest: find_qid split: if_splits option.splits sum.splits)
qed

lemma updateLoop_entry:
  assumes "updateLoop gw s qs rs u cs = (Inr u', cs')"
    and "distinct (map fst rs)" and "(i, r, b) \<in> set rs"
  shows "\<exists>fr. newFeedbacks u' i = Some fr \<and>
     newStatuses u' i =
       Some (if isCorrect fr then CORRECT else if \<not> b then INCORRECT_RETRY else FAILED_FINAL) \<and>
     newAttempts u' i = (if isCorrect fr then newAttempts u i else Some (if \<not> b then 1 else 2)) \<and>
     (if forced s i r b
      then \<exists>q. find (\<lambda>q. qid q = i) qs = Some q \<and>
             \<lparr>callQuestion = q, callAnswer = [], callOutcome = Inr fr\<rparr> \<in> set cs'
      else fr = r)"
  using assms
proof (induction gw s qs rs u cs rule: updateLoop.induct)
  case (1 gw s qs u cs)
  then show ?case by simp
next
  case (2 gw s qs i0 r0 b0 rs u cs)
  show ?case
  proof (cases "(i, r, b) = (i0, r0, b0)")
    case here: True
    from "2.prems"(2) have notin: "i0 \<notin> fst ` set rs" by simp
    show ?thesis
    proof (cases "forced s i0 r0 b0")
      case True
      with "2.prems"(1) obtain q fr where
        f: "find (\<lambda>q. qid q = i0) qs = Some q" and
        g: "gw (length cs) q [] = Inr fr" and
        rest: "updateLoop gw s qs rs (applyResult i0 fr b0 u)
                 (cs @ [\<lparr>callQuestion = q, callAnswer = [], callOutcome = Inr fr\<rparr>]) = (Inr u', cs')"
        by (auto simp: forced_def Let_def split: option.splits sum.splits)
      from updateLoop_frame [OF rest notin] updateLoop_calls_mono [OF rest]
        applyResult_same [of i0 fr b0 u] here True f
      show ?thesis by auto
    next
      case False
      with "2.prems"(1) have
        rest: "updateLoop gw s qs rs (applyResult i0 r0 b0 u) cs = (Inr u', cs')"
        by (auto simp: forced_def)
      from updateLoop_frame [OF rest notin] applyResult_same [of i0 r0 b0 u] here False
      show ?thesis by auto
    qed
  next
    case there: False
    with "2.prems" have mem: "(i, r, b) \<in> set rs" and d: "distinct (map fst rs)"
      and ne: "i \<noteq> i0"
      by (auto simp: image_iff)
    show ?thesis
    proof (cases "forced s i0 r0 b0")
      case True
      with "2.prems"(1) obtain q fr where
        f: "find (\<lambda>q. qid q = i0) qs = Some q" and
        g: "gw (length cs) q [] = Inr fr" and
        rest: "updateLoop gw s qs rs (applyResult i0 fr b0 u)
                 (cs @ [\<lparr>callQuestion = q, callAnswer = [], callOutcome = Inr fr\<rparr>]) = (Inr u', cs')"
        by (auto simp: forced_def Let_def split: option.splits sum.splits)
      from True have c: "trim (answer (getQuestionState s i0)) = [] \<and> b0 \<and>
          (correctAnswer r0 = None \<or> correctAnswer r0 = Some [])"
        by (simp add: forced_def)
      have "updateLoop gw s qs rs (applyResult i0 fr b0 u)
          (cs @ [\<lparr>callQuestion = q, callAnswer = [], callOutcome = gw (length cs) q []\<rparr>])
          = (Inr u', cs')"
        using rest g by simp
      moreover have eq: "newAttempts (applyResult i0 fr b0 u) i = newAttempts u i"
        using applyResult_other [OF ne, of fr b0 u] by simp
      ultimately show ?thesis
        using "2.IH"(1) [OF c f refl refl g _ d mem] unfolding eq by blast
    next
      case False
      with "2.prems"(1) have
        rest: "updateLoop gw s qs rs (applyResult i0 r0 b0 u) cs = (Inr u', cs')"
        by (auto simp: forced_def)
      from False have c: "\<not> (trim (answer (getQuestionState s i0)) = [] \<and> b0 \<and>
          (correctAnswer r0 = None \<or> correctAnswer r0 = Some []))"
        by (simp add: forced_def)
      have eq: "newAttempts (applyResult i0 r0 b0 u) i = newAttempts u i"
        using applyResult_other [OF ne, of r0 b0 u] by simp
      from "2.IH"(2) [OF c rest d mem] show ?thesis unfolding eq .
    qed
  qed
qed


lemma submit_cases:
  obtains (idle) "questionsToEvaluate s qs = []"
      "handleGlobalSubmit gw qs s = \<lparr>engineAfter = s\<lparr>isEvaluating := False\<rparr>, calls = [], alerted = False\<rparr>"
    | (rejected) cs where
      "handleGlobalSubmit gw qs s = \<lparr>engineAfter = s\<lparr>isEvaluating := False\<rparr>, calls = cs, alerted = True\<rparr>"
      "\<forall>c \<in> set cs. trim (answer (getQuestionState s (qid (callQuestion c)))) \<noteq> [] \<or>
          (callAnswer c = [] \<and> callQuestion c \<in> set qs \<and> 0 < attempt (getQuestionState s (qid (callQuestion c))))"
    | (applied) rs u cs1 cs2 where
      "promiseAll (fst (evaluateBatch gw s (questionsToEvaluate s qs) [])) = Inr rs"
      "updateLoop gw s qs rs \<lparr>newStatuses = statuses s, newFeedbacks = feedbacks s,
          newAttempts = attempts s\<rparr> cs1 = (Inr u, cs2)"
      "handleGlobalSubmit gw qs s = \<lparr>engineAfter = s\<lparr>statuses := newStatuses u,
          feedbacks := newFeedbacks u, attempts := newAttempts u, isEvaluating := False\<rparr>,
          calls = cs2, alerted = False\<rparr>"
      "\<forall>c \<in> set cs2. trim (answer (getQuestionState s (qid (callQuestion c)))) \<noteq> [] \<or>
          (callAnswer c = [] \<and> callQuestion c \<in> set qs \<and> 0 < attempt (getQuestionState s (qid (callQuestion c))))"
proof -
  let ?E = "questionsToEvaluate s qs"
  let ?ps = "fst (evaluateBatch gw s ?E [])"
  let ?cs1 = "snd (evaluateBatch gw s ?E [])"
  let ?u0 = "\<lparr>newStatuses = statuses s, newFeedbacks = feedbacks s, newAttempts = attempts s\<rparr>"
  let ?ok = "\<lambda>c. trim (answer (getQuestionState s (qid (callQuestion c)))) \<noteq> [] \<or>
          (callAnswer c = [] \<and> callQuestion c \<in> set qs \<and> 0 < attempt (getQuestionState s (qid (callQuestion c))))"
  have c1: "\<forall>c \<in> set ?cs1. ?ok c"
    using evaluateBatch_calls [of _ gw s ?E "[]"] by auto
  have retry: "\<And>rs i r. promiseAll ?ps = Inr rs \<Longrightarrow> (i, r, True) \<in> set rs \<Longrightarrow>
      0 < attempt (getQuestionState s i)"
  proof -
    fix rs i r assume a: "promiseAll ?ps = Inr rs" and m: "(i, r, True) \<in> set rs"
    from promiseAll_Inr [OF a] m
    have "\<lparr>pendingId = i, pendingResult = Inr r, pendingRetry = True\<rparr> \<in> set ?ps"
      by force
    with evaluateBatch_pending [of gw s ?E "[]"] show "0 < attempt (getQuestionState s i)"
      by fastforce
  qed
  show thesis
  proof (cases "?E = []")
    case True
    then show thesis by (intro idle) (simp_all add: handleGlobalSubmit_def)
  next
    case ne: False
    show thesis
    proof (cases "promiseAll ?ps")
      case (Inl e)
      with ne have "handleGlobalSubmit gw qs s =
          \<lparr>engineAfter = s\<lparr>isEvaluating := False\<rparr>, calls = ?cs1, alerted = True\<rparr>"
        by (simp add: handleGlobalSubmit_def Let_def case_prod_beta)
      from this c1 show thesis by (rule rejected)
    next
      case (Inr rs)
      obtain x cs2 where ul: "updateLoop gw s qs rs ?u0 ?cs1 = (x, cs2)"
        by (cases "updateLoop gw s qs rs ?u0 ?cs1") blast
      have c2: "\<forall>c \<in> set cs2. ?ok c"
      proof
        fix c assume "c \<in> set cs2"
        from updateLoop_calls [OF ul this] c1 retry [OF Inr] show "?ok c" by blast
      qed
      show thesis
      proof (cases x)
        case (Inl e)
        with ne Inr ul have "handleGlobalSubmit gw qs s =
            \<lparr>engineAfter = s\<lparr>isEvaluating := False\<rparr>, calls = cs2, alerted = True\<rparr>"
          by (simp add: handleGlobalSubmit_def Let_def case_prod_beta)
        from this c2 show thesis by (rule rejected)
      next
        case u: (Inr u)
        with ne Inr ul have h: "handleGlobalSubmit gw qs s =
            \<lparr>engineAfter = s\<lparr>statuses := newStatuses u, feedbacks := newFeedbacks u,
               attempts := newAttempts u, isEvaluating := False\<rparr>,
             calls = cs2, alerted = False\<rparr>"
          by (simp add: handleGlobalSubmit_def Let_def case_prod_beta)
        from ul u have ul': "updateLoop gw s qs rs ?u0 ?cs1 = (Inr u, cs2)" by simp
        from Inr ul' h c2 show thesis by (rule applied)
      qed
    qed
  qed
qed

lemma results_ids:
  assumes "promiseAll (fst (evaluateBatch gw s qs0 cs)) = Inr rs"
  shows "map fst rs = map qid qs0"
proof -
  from promiseAll_Inr [OF assms]
  have "map pendingId (fst (evaluateBatch gw s qs0 cs)) = map fst rs"
    by (simp add: comp_def case_prod_beta)
  with evaluateBatch_pending [of gw s qs0 cs] show ?thesis by simp
qed

lemma results_entry:
  assumes "promiseAll (fst (evaluateBatch gw s qs0 cs)) = Inr rs" and "(i, r, b) \<in> set rs"
  shows "b = (0 < attempt (getQuestionState s i)) \<and>
    (trim (answer (getQuestionState s i)) = [] \<longrightarrow> r = localResult b)"
proof -
  from promiseAll_Inr [OF assms(1)] assms(2)
  have "\<lparr>pendingId = i, pendingResult = Inr r, pendingRetry = b\<rparr> \<in> set (fst (evaluateBatch gw s qs0 cs))"
    by force
  with evaluateBatch_pending [of gw s qs0 cs] show ?thesis by fastforce
qed

lemma terminal_not_candidate:
  "statuses s i = Some CORRECT \<or> statuses s i = Some FAILED_FINAL \<Longrightarrow>
   i \<notin> qid ` set (questionsToEvaluate s qs)"
  by (auto simp: questionsToEvaluate_def getQuestionState_def Let_def)

lemma submit_frame:
  assumes "i \<notin> qid ` set (questionsToEvaluate s qs)"
  shows "statuses (engineAfter (handleGlobalSubmit gw qs s)) i = statuses s i \<and>
     feedbacks (engineAfter (handleGlobalSubmit gw qs s)) i = feedbacks s i \<and>
     attempts (engineAfter (handleGlobalSubmit gw qs s)) i = attempts s i"
proof (cases rule: submit_cases [of s qs gw])
  case idle
  then show ?thesis by simp
next
  case (rejected cs)
  then show ?thesis by simp
next
  case (applied rs u cs1 cs2)
  from results_ids [OF applied(1)] assms have "i \<notin> fst ` set rs"
    by (metis list.set_map)
  from updateLoop_frame [OF applied(2) this] applied(3) show ?thesis by simp
qed

lemma submit_answers: "answers (engineAfter (handleGlobalSubmit gw qs s)) = answers s"
  by (cases rule: submit_cases [of s qs gw]) simp_all

lemma submit_alerted:
  "alerted (handleGlobalSubmit gw qs s) \<Longrightarrow>
   engineAfter (handleGlobalSubmit gw qs s) = s\<lparr>isEvaluating := False\<rparr>"
  by (cases rule: submit_cases [of s qs gw]) simp_all

lemma getQuestionState_isEvaluating [simp]:
  "getQuestionState (s\<lparr>isEvaluating := b\<rparr>) i = getQuestionState s i"
  by (simp add: getQuestionState_def)

lemma distinct_qid_eq:
  "distinct (map qid qs) \<Longrightarrow> q \<in> set qs \<Longrightarrow> q' \<in> set qs \<Longrightarrow> qid q' = qid q \<Longrightarrow> q' = q"
  by (meson distinct_map inj_onD)

lemma submit_candidate:
  assumes d: "distinct (map qid qs)" and q: "q \<in> set qs"
    and nt: "nonTerminal s (qid q)" and ok: "\<not> alerted (handleGlobalSubmit gw qs s)"
  shows "\<exists>fr. feedbacks (engineAfter (handleGlobalSubmit gw qs s)) (qid q) = Some fr \<and>
     statuses (engineAfter (handleGlobalSubmit gw qs s)) (qid q) =
       Some (if isCorrect fr then CORRECT
             else if attempt (getQuestionState s (qid q)) = 0 then INCORRECT_RETRY
             else FAILED_FINAL) \<and>
     attempts (engineAfter (handleGlobalSubmit gw qs s)) (qid q) =
       (if isCorrect fr then attempts s (qid q)
        else Some (if attempt (getQuestionState s (qid q)) = 0 then 1 else 2)) \<and>
     (trim (answer (getQuestionState s (qid q))) = [] \<longrightarrow>
        (if 0 < attempt (getQuestionState s (qid q))
         then \<lparr>callQuestion = q, callAnswer = [], callOutcome = Inr fr\<rparr>
                \<in> set (calls (handleGlobalSubmit gw qs s))
         else fr = localResult False))"
proof -
  from q nt have cand: "q \<in> set (questionsToEvaluate s qs)"
    by (simp add: questionsToEvaluate_def nonTerminal_def Let_def)
  show ?thesis
  proof (cases rule: submit_cases [of s qs gw])
    case idle
    with cand show ?thesis by simp
  next
    case (rejected cs)
    with ok show ?thesis by simp
  next
    case (applied rs u cs1 cs2)
    note ids = results_ids [OF applied(1)]
    from d have "distinct (map qid (questionsToEvaluate s qs))"
      by (simp add: questionsToEvaluate_def distinct_map_filter)
    with ids have drs: "distinct (map fst rs)" by simp
    from cand ids have "qid q \<in> fst ` set rs"
      by (metis image_eqI list.set_map)
    then obtain r b where mem: "(qid q, r, b) \<in> set rs" by force
    from results_entry [OF applied(1) mem]
    have b: "b = (0 < attempt (getQuestionState s (qid q)))"
      and loc: "trim (answer (getQuestionState s (qid q))) = [] \<Longrightarrow> r = localResult b"
      by simp_all
    from updateLoop_entry [OF applied(2) drs mem] obtain fr where
      fb: "newFeedbacks u (qid q) = Some fr" and
      st: "newStatuses u (qid q) =
        Some (if isCorrect fr then CORRECT else if \<not> b then INCORRECT_RETRY else FAILED_FINAL)" and
      at: "newAttempts u (qid q) =
        (if isCorrect fr then attempts s (qid q) else Some (if \<not> b then 1 else 2))" and
      fo: "if forced s (qid q) r b
           then \<exists>q'. find (\<lambda>q'. qid q' = qid q) qs = Some q' \<and>
              \<lparr>callQuestion = q', callAnswer = [], callOutcome = Inr fr\<rparr> \<in> set cs2
           else fr = r"
      by auto
    have last: "trim (answer (getQuestionState s (qid q))) = [] \<longrightarrow>
        (if 0 < attempt (getQuestionState s (qid q))
         then \<lparr>callQuestion = q, callAnswer = [], callOutcome = Inr fr\<rparr> \<in> set cs2
         else fr = localResult False)"
    proof
      assume e: "trim (answer (getQuestionState s (qid q))) = []"
      show "if 0 < attempt (getQuestionState s (qid q))
         then \<lparr>callQuestion = q, callAnswer = [], callOutcome = Inr fr\<rparr> \<in> set cs2
         else fr = localResult False"
      proof (cases "0 < attempt (getQuestionState s (qid q))")
        case True
        with b e loc have "forced s (qid q) r b"
          by (simp add: forced_def localResult_def)
        with fo obtain q' where f: "find (\<lambda>q'. qid q' = qid q) qs = Some q'"
          and c: "\<lparr>callQuestion = q', callAnswer = [], callOutcome = Inr fr\<rparr> \<in> set cs2"
          by auto
        from find_qid [OF f] distinct_qid_eq [OF d q] have "q' = q" by blast
        with c True show ?thesis by simp
      next
        case False
        with b have "\<not> forced s (qid q) r b" by (simp add: forced_def)
        with fo loc [OF e] b False show ?thesis by simp
      qed
    qed
    from fb st at last b applied(3) show ?thesis by auto
  qed
qed

lemma attemptsConsistent_submit:
  assumes d: "distinct (map qid qs)" and inv: "attemptsConsistent qs s"
  shows "attemptsConsistent qs (engineAfter (handleGlobalSubmit gw qs s))"
  unfolding attemptsConsistent_def
proof
  fix q assume q: "q \<in> set qs"
  let ?s' = "engineAfter (handleGlobalSubmit gw qs s)"
  from inv q have old: "attemptFits (status (getQuestionState s (qid q)))
      (attempt (getQuestionState s (qid q)))"
    by (simp add: attemptsConsistent_def)
  show "attemptFits (status (getQuestionState ?s' (qid q))) (attempt (getQuestionState ?s' (qid q)))"
  proof (cases "alerted (handleGlobalSubmit gw qs s)")
    case True
    from submit_alerted [OF True] old show ?thesis by simp
  next
    case ok: False
    show ?thesis
    proof (cases "nonTerminal s (qid q)")
      case True
      from submit_candidate [OF d q True ok] obtain fr :: EvaluationResult where
        "statuses ?s' (qid q) =
           Some (if isCorrect fr then CORRECT
             else if attempt (getQuestionState s (qid q)) = 0 then INCORRECT_RETRY
             else FAILED_FINAL)"
        "attempts ?s' (qid q) =
           (if isCorrect fr then attempts s (qid q)
            else Some (if attempt (getQuestionState s (qid q)) = 0 then 1 else 2))"
        by blast
      with old True show ?thesis
        by (cases "status (getQuestionState s (qid q))")
          (auto simp: getQuestionState_def nonTerminal_def split: option.splits if_splits)
    next
      case False
      then have "statuses s (qid q) = Some CORRECT \<or> statuses s (qid q) = Some FAILED_FINAL"
        by (auto simp: nonTerminal_def getQuestionState_def split: option.splits)
      from submit_frame [OF terminal_not_candidate [OF this]] old show ?thesis
        by (simp add: getQuestionState_def)
    qed
  qed
qed

lemma reachable_consistent:
  "reachable qs s \<Longrightarrow> distinct (map qid qs) \<Longrightarrow> attemptsConsistent qs s"
proof (induction rule: reachable.induct)
  case reachable_initial
  then show ?case
    by (simp add: attemptsConsistent_def getQuestionState_def initialEngine_def)
next
  case (reachable_change s i val)
  then show ?case
    by (simp add: attemptsConsistent_def getQuestionState_def handleAnswerChange_def)
next
  case (reachable_submit s gw)
  then show ?case by (simp add: attemptsConsistent_submit)
qed

lemma updateLoop_last:
  assumes "updateLoop gw s qs rs u cs = (Inr u', cs')" and "i \<in> fst ` set rs"
  shows "\<exists>r b fr. (i, r, b) \<in> set rs \<and> recordedFor s qs u' cs' i r b fr"
  using assms
proof (induction gw s qs rs u cs rule: updateLoop.induct)
  case (1 gw s qs u cs)
  then show ?case by simp
next
  case (2 gw s qs i0 r0 b0 rs u cs)
  show ?case
  proof (cases "forced s i0 r0 b0")
    case True
    with "2.prems"(1) obtain q fr where
      f: "find (\<lambda>q. qid q = i0) qs = Some q" and
      g: "gw (length cs) q [] = Inr fr" and
      rest: "updateLoop gw s qs rs (applyResult i0 fr b0 u)
               (cs @ [\<lparr>callQuestion = q, callAnswer = [], callOutcome = Inr fr\<rparr>]) = (Inr u', cs')"
      by (auto simp: forced_def Let_def split: option.splits sum.splits)
    from True have c: "trim (answer (getQuestionState s i0)) = [] \<and> b0 \<and>
        (correctAnswer r0 = None \<or> correctAnswer r0 = Some [])"
      by (simp add: forced_def)
    show ?thesis
    proof (cases "i \<in> fst ` set rs")
      case inTail: True
      have "updateLoop gw s qs rs (applyResult i0 fr b0 u)
          (cs @ [\<lparr>callQuestion = q, callAnswer = [], callOutcome = gw (length cs) q []\<rparr>])
          = (Inr u', cs')"
        using rest g by simp
      from "2.IH"(1) [OF c f refl refl g this inTail] obtain r b fr' where
        "(i, r, b) \<in> set rs" and "recordedFor s qs u' cs' i r b fr'" by blast
      then have "(i, r, b) \<in> set ((i0, r0, b0) # rs) \<and> recordedFor s qs u' cs' i r b fr'"
        by simp
      then show ?thesis by blast
    next
      case False
      with "2.prems"(2) have eq: "i = i0" by auto
      from updateLoop_frame [OF rest False] updateLoop_calls_mono [OF rest]
        applyResult_same [of i0 fr b0 u] eq True f
      have "recordedFor s qs u' cs' i r0 b0 fr"
        unfolding recordedFor_def by auto
      with eq have "(i, r0, b0) \<in> set ((i0, r0, b0) # rs) \<and> recordedFor s qs u' cs' i r0 b0 fr"
        by simp
      then show ?thesis by blast
    qed
  next
    case nf: False
    with "2.prems"(1) have
      rest: "updateLoop gw s qs rs (applyResult i0 r0 b0 u) cs = (Inr u', cs')"
      by (auto simp: forced_def)
    from nf have c: "\<not> (trim (answer (getQuestionState s i0)) = [] \<and> b0 \<and>
        (correctAnswer r0 = None \<or> correctAnswer r0 = Some []))"
      by (simp add: forced_def)
    show ?thesis
    proof (cases "i \<in> fst ` set rs")
      case inTail: True
      from "2.IH"(2) [OF c rest inTail] obtain r b fr' where
        "(i, r, b) \<in> set rs" and "recordedFor s qs u' cs' i r b fr'" by blast
      then have "(i, r, b) \<in> set ((i0, r0, b0) # rs) \<and> recordedFor s qs u' cs' i r b fr'"
        by simp
      then show ?thesis by blast
    next
      case False
      with "2.prems"(2) have eq: "i = i0" by auto
      from updateLoop_frame [OF rest False] applyResult_same [of i0 r0 b0 u] eq nf
      have "recordedFor s qs u' cs' i r0 b0 r0"
        unfolding recordedFor_def by auto
      with eq have "(i, r0, b0) \<in> set ((i0, r0, b0) # rs) \<and> recordedFor s qs u' cs' i r0 b0 r0"
        by simp
      then show ?thesis by blast
    qed
  qed
qed

lemma applyResult_attempts:
  "newAttempts (applyResult j r b u) i = newAttempts u i \<or>
   newAttempts (applyResult j r b u) i = Some 1 \<or>
   newAttempts (applyResult j r b u) i = Some 2"
  by (simp add: applyResult_def Let_def)

lemma updateLoop_attempts:
  "updateLoop gw s qs rs u cs = (Inr u', cs') \<Longrightarrow>
   newAttempts u' i = newAttempts u i \<or> newAttempts u' i = Some 1 \<or> newAttempts u' i = Some 2"
proof (induction gw s qs rs u cs rule: updateLoop.induct)
  case (1 gw s qs u cs)
  then show ?case by simp
next
  case (2 gw s qs i0 r0 b0 rs u cs)
  show ?case
  proof (cases "forced s i0 r0 b0")
    case True
    with "2.prems" obtain q fr where
      f: "find (\<lambda>q. qid q = i0) qs = Some q" and
      g: "gw (length cs) q [] = Inr fr" and
      rest: "updateLoop gw s qs rs (applyResult i0 fr b0 u)
               (cs @ [\<lparr>callQuestion = q, callAnswer = [], callOutcome = Inr fr\<rparr>]) = (Inr u', cs')"
      by (auto simp: forced_def Let_def split: option.splits sum.splits)
    from True have c: "trim (answer (getQuestionState s i0)) = [] \<and> b0 \<and>
        (correctAnswer r0 = None \<or> correctAnswer r0 = Some [])"
      by (simp add: forced_def)
    have "updateLoop gw s qs rs (applyResult i0 fr b0 u)
          (cs @ [\<lparr>callQuestion = q, callAnswer = [], callOutcome = gw (length cs) q []\<rparr>])
          = (Inr u', cs')"
      using rest g by simp
    from "2.IH"(1) [OF c f refl refl g this] applyResult_attempts [of i0 fr b0 u i]
    show ?thesis by auto
  next
    case nf: False
    with "2.prems" have
      rest: "updateLoop gw s qs rs (applyResult i0 r0 b0 u) cs = (Inr u', cs')"
      by (auto simp: forced_def)
    from nf have c: "\<not> (trim (answer (getQuestionState s i0)) = [] \<and> b0 \<and>
        (correctAnswer r0 = None \<or> correctAnswer r0 = Some []))"
      by (simp add: forced_def)
    from "2.IH"(2) [OF c rest] applyResult_attempts [of i0 r0 b0 u i]
    show ?thesis by auto
  qed
qed

lemma submit_attempts:
  "attempts (engineAfter (handleGlobalSubmit gw qs s)) i = attempts s i \<or>
   attempts (engineAfter (handleGlobalSubmit gw qs s)) i = Some 1 \<or>
   attempts (engineAfter (handleGlobalSubmit gw qs s)) i = Some 2"
proof (cases rule: submit_cases [of s qs gw])
  case idle
  then show ?thesis by simp
next
  case (rejected cs)
  then show ?thesis by simp
next
  case (applied rs u cs1 cs2)
  from updateLoop_attempts [OF applied(2), of i] applied(3) show ?thesis by simp
qed

lemma reachable_attempts:
  "reachable qs s \<Longrightarrow> attempts s i = None \<or> attempts s i = Some 1 \<or> attempts s i = Some 2"
proof (induction rule: reachable.induct)
  case reachable_initial
  then show ?case by (simp add: initialEngine_def)
next
  case (reachable_change s j val)
  then show ?case by (simp add: handleAnswerChange_def)
next
  case (reachable_submit s gw)
  with submit_attempts [of gw qs s i] show ?case by auto
qed

lemma submit_last:
  assumes q: "q \<in> set qs" and nt: "nonTerminal s (qid q)"
    and ok: "\<not> alerted (handleGlobalSubmit gw qs s)"
    and e: "trim (answer (getQuestionState s (qid q))) = []"
  shows "\<exists>fr. feedbacks (engineAfter (handleGlobalSubmit gw qs s)) (qid q) = Some fr \<and>
     statuses (engineAfter (handleGlobalSubmit gw qs s)) (qid q) =
       Some (if isCorrect fr then CORRECT
             else if attempt (getQuestionState s (qid q)) = 0 then INCORRECT_RETRY
             else FAILED_FINAL) \<and>
     (\<not> isCorrect fr \<longrightarrow> attempts (engineAfter (handleGlobalSubmit gw qs s)) (qid q) =
        Some (if attempt (getQuestionState s (qid q)) = 0 then 1 else 2)) \<and>
     (if 0 < attempt (getQuestionState s (qid q))
      then \<exists>q'. find (\<lambda>q'. qid q' = qid q) qs = Some q' \<and>
             \<lparr>callQuestion = q', callAnswer = [], callOutcome = Inr fr\<rparr>
                \<in> set (calls (handleGlobalSubmit gw qs s))
      else fr = localResult False)"
proof -
  from q nt have cand: "q \<in> set (questionsToEvaluate s qs)"
    by (simp add: questionsToEvaluate_def nonTerminal_def Let_def)
  show ?thesis
  proof (cases rule: submit_cases [of s qs gw])
    case idle
    with cand show ?thesis by simp
  next
    case (rejected cs)
    with ok show ?thesis by simp
  next
    case (applied rs u cs1 cs2)
    note ids = results_ids [OF applied(1)]
    from cand ids have "qid q \<in> fst ` set rs"
      by (metis image_eqI list.set_map)
    from updateLoop_last [OF applied(2) this] obtain r b fr where
      mem: "(qid q, r, b) \<in> set rs" and rec: "recordedFor s qs u cs2 (qid q) r b fr"
      by blast
    from rec have
      fb: "newFeedbacks u (qid q) = Some fr" and
      st: "newStatuses u (qid q) =
        Some (if isCorrect fr then CORRECT else if \<not> b then INCORRECT_RETRY else FAILED_FINAL)" and
      at: "\<not> isCorrect fr \<longrightarrow> newAttempts u (qid q) = Some (if \<not> b then 1 else 2)" and
      fo: "if forced s (qid q) r b
           then \<exists>q'. find (\<lambda>q'. qid q' = qid q) qs = Some q' \<and>
              \<lparr>callQuestion = q', callAnswer = [], callOutcome = Inr fr\<rparr> \<in> set cs2
           else fr = r"
      by (simp_all add: recordedFor_def)
    from results_entry [OF applied(1) mem] e
    have b: "b = (0 < attempt (getQuestionState s (qid q)))" and loc: "r = localResult b"
      by simp_all
    have last: "if 0 < attempt (getQuestionState s (qid q))
      then \<exists>q'. find (\<lambda>q'. qid q' = qid q) qs = Some q' \<and>
             \<lparr>callQuestion = q', callAnswer = [], callOutcome = Inr fr\<rparr> \<in> set cs2
      else fr = localResult False"
    proof (cases "0 < attempt (getQuestionState s (qid q))")
      case True
      with b e loc have "forced s (qid q) r b"
        by (simp add: forced_def localResult_def)
      with fo True show ?thesis by simp
    next
      case False
      with b have "\<not> forced s (qid q) r b" by (simp add: forced_def)
      with fo loc b False show ?thesis by simp
    qed
    from fb st at last b applied(3) show ?thesis by auto
  qed
qed

subsection \<open>The one-question quiz, evaluated\<close>

lemma answeredEngine_eval:
  "statuses answeredEngine 1 = Some CORRECT"
  by (simp add: answeredEngine_def handleGlobalSubmit_def questionsToEvaluate_def
      getQuestionState_def handleAnswerChange_def initialEngine_def Let_def trim_def str_def
      isWhiteSpace_def rightGateway_def applyResult_def exQuestion_def)

lemma answeredEngine_feedback:
  "feedbacks answeredEngine 1 = Some \<lparr>isCorrect = True, isIncomplete = None, score = Some 2,
     feedback = str ''Bravo'', correctAnswer = Some (str ''Ali'')\<rparr>"
  by (simp add: answeredEngine_def handleGlobalSubmit_def questionsToEvaluate_def
      getQuestionState_def handleAnswerChange_def initialEngine_def Let_def trim_def str_def
      isWhiteSpace_def rightGateway_def applyResult_def exQuestion_def)

lemma emptyOnce_eval:
  "emptyOnce = \<lparr>answers = Map.empty, statuses = [1 \<mapsto> INCORRECT_RETRY],
     feedbacks = [1 \<mapsto> localResult False], attempts = [1 \<mapsto> 1], isEvaluating = False\<rparr>"
  by (simp add: emptyOnce_def handleGlobalSubmit_def questionsToEvaluate_def
      getQuestionState_def initialEngine_def Let_def trim_def
      applyResult_def exQuestion_def localResult_def)

lemma initial_submit_not_alerted:
  "\<not> alerted (handleGlobalSubmit wrongGateway [exQuestion] initialEngine)"
  by (simp add: handleGlobalSubmit_def questionsToEvaluate_def
      getQuestionState_def initialEngine_def Let_def trim_def
      applyResult_def exQuestion_def localResult_def)

lemma emptyTwice_eval:
  "emptyTwice = \<lparr>answers = Map.empty, statuses = [1 \<mapsto> FAILED_FINAL],
     feedbacks = [1 \<mapsto> \<lparr>isCorrect = False, isIncomplete = None, score = Some 0,
        feedback = str ''Relis'', correctAnswer = Some (str ''Ali'')\<rparr>],
     attempts = [1 \<mapsto> 2], isEvaluating = False\<rparr>"
  by (simp add: emptyTwice_def emptyOnce_eval handleGlobalSubmit_def questionsToEvaluate_def
      getQuestionState_def Let_def trim_def wrongGateway_def
      applyResult_def exQuestion_def localResult_def)

lemma retry_submit_eval:
  "\<not> alerted (handleGlobalSubmit wrongGateway [exQuestion] emptyOnce) \<and>
   calls (handleGlobalSubmit wrongGateway [exQuestion] emptyOnce) =
     [\<lparr>callQuestion = exQuestion, callAnswer = [], callOutcome = wrongGateway 0 exQuestion []\<rparr>]"
  by (simp add: emptyOnce_eval handleGlobalSubmit_def questionsToEvaluate_def
      getQuestionState_def Let_def trim_def wrongGateway_def
      applyResult_def exQuestion_def localResult_def)

subsection \<open>The two-question quizzes, evaluated\<close>

lemma typedEngine_eval:
  "typedEngine = \<lparr>answers = [1 \<mapsto> str ''x''], statuses = Map.empty, feedbacks = Map.empty,
     attempts = Map.empty, isEvaluating = False\<rparr>"
  by (simp add: typedEngine_def handleAnswerChange_def initialEngine_def)

lemma bothTyped_eval:
  "bothTyped = \<lparr>answers = [1 \<mapsto> str ''x'', 2 \<mapsto> str ''y''], statuses = Map.empty,
     feedbacks = Map.empty, attempts = Map.empty, isEvaluating = False\<rparr>"
  by (simp add: bothTyped_def typedEngine_eval handleAnswerChange_def)

lemma bothEmptyOnce_eval:
  "bothEmptyOnce = \<lparr>answers = Map.empty,
     statuses = [1 \<mapsto> INCORRECT_RETRY, 2 \<mapsto> INCORRECT_RETRY],
     feedbacks = [1 \<mapsto> localResult False, 2 \<mapsto> localResult False],
     attempts = [1 \<mapsto> 1, 2 \<mapsto> 1], isEvaluating = False\<rparr>"
  by (simp add: bothEmptyOnce_def handleGlobalSubmit_def questionsToEvaluate_def
      getQuestionState_def initialEngine_def Let_def trim_def
      applyResult_def exQuestion_def secondQuestion_def localResult_def)

lemma twinEmptyOnce_eval:
  "twinEmptyOnce = \<lparr>answers = Map.empty, statuses = [1 \<mapsto> INCORRECT_RETRY],
     feedbacks = [1 \<mapsto> localResult False], attempts = [1 \<mapsto> 1], isEvaluating = False\<rparr>"
  by (simp add: twinEmptyOnce_def handleGlobalSubmit_def questionsToEvaluate_def
      getQuestionState_def initialEngine_def Let_def trim_def
      applyResult_def exQuestion_def twinQuestion_def localResult_def)

section \<open>Question Engine: the claims\<close>

text \<open>
  C3 (terminal absorption). When the status of a question is \<open>CORRECT\<close> or
  \<open>FAILED_FINAL\<close>, a submission, whatever the Gateway answers, does not select the
  question for evaluation and leaves its status, answer, feedback and attempt entries as
  they were.
\<close>
theorem terminal_absorption:
  assumes "statuses s (qid q) = Some CORRECT \<or> statuses s (qid q) = Some FAILED_FINAL"
  shows "q \<notin> set (questionsToEvaluate s qs) \<and>
     statuses (engineAfter (handleGlobalSubmit gw qs s)) (qid q) = statuses s (qid q) \<and>
     answers (engineAfter (handleGlobalSubmit gw qs s)) (qid q) = answers s (qid q) \<and>
     feedbacks (engineAfter (handleGlobalSubmit gw qs s)) (qid q) = feedbacks s (qid q) \<and>
     attempts (engineAfter (handleGlobalSubmit gw qs s)) (qid q) = attempts s (qid q)"
proof -
  from terminal_not_candidate [OF assms] have n: "qid q \<notin> qid ` set (questionsToEvaluate s qs)" .
  then have "q \<notin> set (questionsToEvaluate s qs)" by blast
  with submit_frame [OF n] submit_answers show ?thesis by simp
qed

theorem terminal_absorption_witness:
  "statuses answeredEngine (qid exQuestion) = Some CORRECT \<and>
   exQuestion \<notin> set (questionsToEvaluate answeredEngine [exQuestion]) \<and>
   statuses (engineAfter (handleGlobalSubmit wrongGateway [exQuestion] answeredEngine))
     (qid exQuestion) = Some CORRECT"
  using terminal_absorption [of answeredEngine exQuestion "[exQuestion]" wrongGateway]
    answeredEngine_eval
  by (simp add: exQuestion_def)

text \<open>
  C4 (attempt monotonicity), as the code has it. In every state the Engine can reach
  the attempt counter at any id is at most 2. In a quiz whose question ids are pairwise
  distinct, when a submission that completes (no rejection, so no alert) evaluates a
  question, a result is recorded for it and decides: a correct result makes the status
  \<open>CORRECT\<close> and leaves the counter as it was, any other result raises the counter
  by exactly one, to at most 2.
\<close>
theorem attempt_monotonicity:
  assumes "reachable qs s"
  shows "attempt (getQuestionState s i) \<le> 2 \<and>
    (distinct (map qid qs) \<and> q \<in> set qs \<and> nonTerminal s (qid q) \<and>
     \<not> alerted (handleGlobalSubmit gw qs s) \<longrightarrow>
      (\<exists>r. feedbackOf (getQuestionState (engineAfter (handleGlobalSubmit gw qs s)) (qid q)) = Some r \<and>
         (if isCorrect r
          then status (getQuestionState (engineAfter (handleGlobalSubmit gw qs s)) (qid q)) = CORRECT \<and>
               attempt (getQuestionState (engineAfter (handleGlobalSubmit gw qs s)) (qid q)) =
                 attempt (getQuestionState s (qid q))
          else attempt (getQuestionState (engineAfter (handleGlobalSubmit gw qs s)) (qid q)) =
                 attempt (getQuestionState s (qid q)) + 1 \<and>
               attempt (getQuestionState (engineAfter (handleGlobalSubmit gw qs s)) (qid q)) \<le> 2)))"
proof -
  from reachable_attempts [OF assms, of i] have le: "attempt (getQuestionState s i) \<le> 2"
    by (auto simp: getQuestionState_def)
  have step: "\<exists>r. feedbackOf (getQuestionState (engineAfter (handleGlobalSubmit gw qs s)) (qid q)) = Some r \<and>
         (if isCorrect r
          then status (getQuestionState (engineAfter (handleGlobalSubmit gw qs s)) (qid q)) = CORRECT \<and>
               attempt (getQuestionState (engineAfter (handleGlobalSubmit gw qs s)) (qid q)) =
                 attempt (getQuestionState s (qid q))
          else attempt (getQuestionState (engineAfter (handleGlobalSubmit gw qs s)) (qid q)) =
                 attempt (getQuestionState s (qid q)) + 1 \<and>
               attempt (getQuestionState (engineAfter (handleGlobalSubmit gw qs s)) (qid q)) \<le> 2)"
    if d: "distinct (map qid qs)" and m: "q \<in> set qs" and nt: "nonTerminal s (qid q)"
      and ok: "\<not> alerted (handleGlobalSubmit gw qs s)"
  proof -
    from reachable_consistent [OF assms d] m
    have old: "attemptFits (status (getQuestionState s (qid q))) (attempt (getQuestionState s (qid q)))"
      by (simp add: attemptsConsistent_def)
    from submit_candidate [OF d m nt ok] obtain fr where
      f: "feedbacks (engineAfter (handleGlobalSubmit gw qs s)) (qid q) = Some fr" and
      s: "statuses (engineAfter (handleGlobalSubmit gw qs s)) (qid q) =
           Some (if isCorrect fr then CORRECT
             else if attempt (getQuestionState s (qid q)) = 0 then INCORRECT_RETRY
             else FAILED_FINAL)" and
      a: "attempts (engineAfter (handleGlobalSubmit gw qs s)) (qid q) =
           (if isCorrect fr then attempts s (qid q)
            else Some (if attempt (getQuestionState s (qid q)) = 0 then 1 else 2))"
      by blast
    from old nt have "attempt (getQuestionState s (qid q)) = 0 \<or> attempt (getQuestionState s (qid q)) = 1"
      by (cases "status (getQuestionState s (qid q))") (simp_all add: nonTerminal_def)
    with f s a show ?thesis
      by (auto simp: getQuestionState_def split: option.splits)
  qed
  from le step show ?thesis by blast
qed

theorem attempt_monotonicity_witness:
  "attempt (getQuestionState initialEngine (qid exQuestion)) = 0 \<and>
   attempt (getQuestionState emptyOnce (qid exQuestion)) = 1 \<and>
   attempt (getQuestionState emptyTwice (qid exQuestion)) = 2 \<and>
   feedbackOf (getQuestionState emptyOnce (qid exQuestion)) = Some (localResult False) \<and>
   status (getQuestionState answeredEngine (qid exQuestion)) = CORRECT \<and>
   attempt (getQuestionState answeredEngine (qid exQuestion)) = 0"
proof -
  have d: "distinct (map qid [exQuestion])" by simp
  have m: "exQuestion \<in> set [exQuestion]" by simp
  have n0: "nonTerminal initialEngine (qid exQuestion)"
    by (simp add: nonTerminal_def getQuestionState_def initialEngine_def)
  have r1: "reachable [exQuestion] emptyOnce"
    unfolding emptyOnce_def by (rule reachable_submit [OF reachable_initial])
  have n1: "nonTerminal emptyOnce (qid exQuestion)"
    by (simp add: nonTerminal_def getQuestionState_def emptyOnce_eval exQuestion_def)
  have ok1: "\<not> alerted (handleGlobalSubmit wrongGateway [exQuestion] emptyOnce)"
    using retry_submit_eval by simp
  have r2: "reachable [exQuestion] (handleAnswerChange 1 (str ''Ali'') initialEngine)"
    by (rule reachable_change [OF reachable_initial])
  have n2: "nonTerminal (handleAnswerChange 1 (str ''Ali'') initialEngine) (qid exQuestion)"
    by (simp add: nonTerminal_def getQuestionState_def initialEngine_def handleAnswerChange_def)
  have ok2: "\<not> alerted (handleGlobalSubmit rightGateway [exQuestion]
      (handleAnswerChange 1 (str ''Ali'') initialEngine))"
    by (simp add: handleGlobalSubmit_def questionsToEvaluate_def
      getQuestionState_def handleAnswerChange_def initialEngine_def Let_def trim_def str_def
      isWhiteSpace_def rightGateway_def applyResult_def exQuestion_def)
  have a0: "attempt (getQuestionState initialEngine (qid exQuestion)) = 0"
    by (simp add: getQuestionState_def initialEngine_def)
  have first: "attempt (getQuestionState emptyOnce (qid exQuestion)) = 1 \<and>
      feedbackOf (getQuestionState emptyOnce (qid exQuestion)) = Some (localResult False)"
    using attempt_monotonicity [OF reachable_initial, where q = exQuestion and gw = wrongGateway
        and qs = "[exQuestion]"] d m n0 initial_submit_not_alerted
    by (simp add: emptyOnce_eval getQuestionState_def initialEngine_def exQuestion_def
        localResult_def emptyOnce_def [symmetric])
  have second: "attempt (getQuestionState emptyTwice (qid exQuestion)) = 2"
    using attempt_monotonicity [OF r1, where q = exQuestion and gw = wrongGateway] d m n1 ok1 first
    by (simp add: emptyTwice_eval getQuestionState_def exQuestion_def
        emptyTwice_def [symmetric])
  have third: "status (getQuestionState answeredEngine (qid exQuestion)) = CORRECT \<and>
      attempt (getQuestionState answeredEngine (qid exQuestion)) = 0"
    using attempt_monotonicity [OF r2, where q = exQuestion and gw = rightGateway,
        folded answeredEngine_def] d m n2 ok2 answeredEngine_feedback
    by (auto simp: getQuestionState_def exQuestion_def initialEngine_def handleAnswerChange_def)
  from a0 first second third show ?thesis by simp
qed

text \<open>
  C4 as stated fails twice. With two questions of the same id, the Gateway finding the
  first answer wrong and the second right, the submission completes, the recorded
  result is correct and the status \<open>CORRECT\<close>, and the counter has gone from 0 to 1.
  With distinct ids, the Gateway finding the first answer wrong and rejecting the second
  call, the batch is abandoned and the counter of the first question stays at 0.
\<close>
theorem attempt_monotonicity_counterexample:
  "reachable [exQuestion, twinQuestion] typedEngine \<and>
   attempt (getQuestionState typedEngine 1) = 0 \<and>
   \<not> alerted (handleGlobalSubmit wrongThenRight [exQuestion, twinQuestion] typedEngine) \<and>
   feedbacks (engineAfter (handleGlobalSubmit wrongThenRight [exQuestion, twinQuestion] typedEngine)) 1
     = Some \<lparr>isCorrect = True, isIncomplete = None, score = Some 2,
         feedback = str ''Bravo'', correctAnswer = Some (str ''Ali'')\<rparr> \<and>
   statuses (engineAfter (handleGlobalSubmit wrongThenRight [exQuestion, twinQuestion] typedEngine)) 1
     = Some CORRECT \<and>
   attempt (getQuestionState
     (engineAfter (handleGlobalSubmit wrongThenRight [exQuestion, twinQuestion] typedEngine)) 1) = 1 \<and>
   reachable [exQuestion, secondQuestion] bothTyped \<and>
   calls (handleGlobalSubmit wrongThenReject [exQuestion, secondQuestion] bothTyped) =
     [\<lparr>callQuestion = exQuestion, callAnswer = str ''x'',
        callOutcome = Inr \<lparr>isCorrect = False, isIncomplete = None, score = Some 0,
          feedback = str ''Relis'', correctAnswer = Some (str ''Ali'')\<rparr>\<rparr>,
      \<lparr>callQuestion = secondQuestion, callAnswer = str ''y'', callOutcome = Inl TransportError\<rparr>] \<and>
   alerted (handleGlobalSubmit wrongThenReject [exQuestion, secondQuestion] bothTyped) \<and>
   attempt (getQuestionState
     (engineAfter (handleGlobalSubmit wrongThenReject [exQuestion, secondQuestion] bothTyped)) 1) = 0"
proof -
  have r1: "reachable [exQuestion, twinQuestion] typedEngine"
    unfolding typedEngine_def by (rule reachable_change [OF reachable_initial])
  have r2: "reachable [exQuestion, secondQuestion] bothTyped"
    unfolding bothTyped_def typedEngine_def
    by (rule reachable_change [OF reachable_change [OF reachable_initial]])
  have a: "attempt (getQuestionState typedEngine 1) = 0"
    by (simp add: typedEngine_eval getQuestionState_def)
  have dup: "handleGlobalSubmit wrongThenRight [exQuestion, twinQuestion] typedEngine =
      \<lparr>engineAfter = \<lparr>answers = [1 \<mapsto> str ''x''], statuses = [1 \<mapsto> CORRECT],
          feedbacks = [1 \<mapsto> \<lparr>isCorrect = True, isIncomplete = None, score = Some 2,
             feedback = str ''Bravo'', correctAnswer = Some (str ''Ali'')\<rparr>],
          attempts = [1 \<mapsto> 1], isEvaluating = False\<rparr>,
        calls = [\<lparr>callQuestion = exQuestion, callAnswer = str ''x'',
                   callOutcome = wrongGateway 0 exQuestion (str ''x'')\<rparr>,
                 \<lparr>callQuestion = twinQuestion, callAnswer = str ''x'',
                   callOutcome = rightGateway 1 twinQuestion (str ''x'')\<rparr>],
        alerted = False\<rparr>"
    by (simp add: typedEngine_eval handleGlobalSubmit_def questionsToEvaluate_def
      getQuestionState_def Let_def trim_def str_def isWhiteSpace_def wrongThenRight_def
      wrongGateway_def rightGateway_def applyResult_def exQuestion_def twinQuestion_def)
  have rej: "handleGlobalSubmit wrongThenReject [exQuestion, secondQuestion] bothTyped =
      \<lparr>engineAfter = bothTyped,
        calls = [\<lparr>callQuestion = exQuestion, callAnswer = str ''x'',
                   callOutcome = wrongGateway 0 exQuestion (str ''x'')\<rparr>,
                 \<lparr>callQuestion = secondQuestion, callAnswer = str ''y'',
                   callOutcome = Inl TransportError\<rparr>],
        alerted = True\<rparr>"
    by (simp add: bothTyped_eval handleGlobalSubmit_def questionsToEvaluate_def
      getQuestionState_def Let_def trim_def str_def isWhiteSpace_def wrongThenReject_def
      wrongGateway_def applyResult_def exQuestion_def secondQuestion_def)
  from r1 r2 a show ?thesis
    unfolding dup rej
    by (simp add: getQuestionState_def bothTyped_eval wrongGateway_def)
qed

text \<open>
  C5 (empty answers), as the code has it. Take a question of the quiz that is not
  terminal and whose answer is empty or blank. At attempt 0, a submission makes no
  Gateway call for a question of that id; the result built locally has \<open>isCorrect\<close>
  false and \<open>isIncomplete\<close> true; and when the submission completes, that result is
  recorded and the question is at \<open>INCORRECT_RETRY\<close> with attempt 1. On the retry,
  when the submission completes, the Gateway has been called with the empty string as
  the student answer for the first question of the quiz that has this id (the question
  itself when the ids are distinct), the result of this call is recorded, and the
  question is at \<open>FAILED_FINAL\<close>, or at \<open>CORRECT\<close> when that result is correct.
\<close>
theorem empty_answer_protocol:
  assumes "q \<in> set qs" and "nonTerminal s (qid q)"
    and "trim (answer (getQuestionState s (qid q))) = []"
  shows "(attempt (getQuestionState s (qid q)) = 0 \<longrightarrow>
       (\<forall>c \<in> set (calls (handleGlobalSubmit gw qs s)). qid (callQuestion c) \<noteq> qid q) \<and>
       isCorrect (localResult False) = False \<and> isIncomplete (localResult False) = Some True \<and>
       (\<not> alerted (handleGlobalSubmit gw qs s) \<longrightarrow>
          feedbacks (engineAfter (handleGlobalSubmit gw qs s)) (qid q) = Some (localResult False) \<and>
          statuses (engineAfter (handleGlobalSubmit gw qs s)) (qid q) = Some INCORRECT_RETRY \<and>
          attempts (engineAfter (handleGlobalSubmit gw qs s)) (qid q) = Some 1)) \<and>
     (0 < attempt (getQuestionState s (qid q)) \<and> \<not> alerted (handleGlobalSubmit gw qs s) \<longrightarrow>
       (\<exists>q' r. find (\<lambda>q'. qid q' = qid q) qs = Some q' \<and>
            (distinct (map qid qs) \<longrightarrow> q' = q) \<and>
            \<lparr>callQuestion = q', callAnswer = [], callOutcome = Inr r\<rparr>
               \<in> set (calls (handleGlobalSubmit gw qs s)) \<and>
            feedbacks (engineAfter (handleGlobalSubmit gw qs s)) (qid q) = Some r \<and>
            statuses (engineAfter (handleGlobalSubmit gw qs s)) (qid q) =
              Some (if isCorrect r then CORRECT else FAILED_FINAL)))"
proof -
  let ?sub = "handleGlobalSubmit gw qs s"
  have nocall: "\<forall>c \<in> set (calls ?sub). qid (callQuestion c) \<noteq> qid q"
    if z: "attempt (getQuestionState s (qid q)) = 0"
  proof (cases rule: submit_cases [of s qs gw])
    case idle
    then show ?thesis by simp
  next
    case (rejected cs)
    with assms(3) z show ?thesis by auto
  next
    case (applied rs u cs1 cs2)
    with assms(3) z show ?thesis by auto
  qed
  have first: "feedbacks (engineAfter ?sub) (qid q) = Some (localResult False) \<and>
          statuses (engineAfter ?sub) (qid q) = Some INCORRECT_RETRY \<and>
          attempts (engineAfter ?sub) (qid q) = Some 1"
    if z: "attempt (getQuestionState s (qid q)) = 0" and ok: "\<not> alerted ?sub"
    using submit_last [OF assms(1) assms(2) ok assms(3)] z
    by (auto simp: localResult_def)
  have second: "\<exists>q' r. find (\<lambda>q'. qid q' = qid q) qs = Some q' \<and>
            (distinct (map qid qs) \<longrightarrow> q' = q) \<and>
            \<lparr>callQuestion = q', callAnswer = [], callOutcome = Inr r\<rparr> \<in> set (calls ?sub) \<and>
            feedbacks (engineAfter ?sub) (qid q) = Some r \<and>
            statuses (engineAfter ?sub) (qid q) = Some (if isCorrect r then CORRECT else FAILED_FINAL)"
    if p: "0 < attempt (getQuestionState s (qid q))" and ok: "\<not> alerted ?sub"
  proof -
    from submit_last [OF assms(1) assms(2) ok assms(3)] obtain fr where
      f: "feedbacks (engineAfter ?sub) (qid q) = Some fr" and
      st0: "statuses (engineAfter ?sub) (qid q) =
         Some (if isCorrect fr then CORRECT
               else if attempt (getQuestionState s (qid q)) = 0 then INCORRECT_RETRY
               else FAILED_FINAL)" and
      rest: "if 0 < attempt (getQuestionState s (qid q))
         then \<exists>q'. find (\<lambda>q'. qid q' = qid q) qs = Some q' \<and>
             \<lparr>callQuestion = q', callAnswer = [], callOutcome = Inr fr\<rparr> \<in> set (calls ?sub)
         else fr = localResult False"
      by blast
    from p st0 have
      st: "statuses (engineAfter ?sub) (qid q) = Some (if isCorrect fr then CORRECT else FAILED_FINAL)"
      by simp
    from p rest obtain q' where
      fi: "find (\<lambda>q'. qid q' = qid q) qs = Some q'" and
      c: "\<lparr>callQuestion = q', callAnswer = [], callOutcome = Inr fr\<rparr> \<in> set (calls ?sub)"
      by auto
    from find_qid [OF fi] distinct_qid_eq [OF _ assms(1)]
    have "distinct (map qid qs) \<longrightarrow> q' = q" by blast
    with f st fi c show ?thesis by blast
  qed
  have loc: "isCorrect (localResult False) = False \<and> isIncomplete (localResult False) = Some True"
    by (simp add: localResult_def)
  from nocall first second loc show ?thesis by blast
qed

theorem empty_answer_protocol_witness:
  "calls (handleGlobalSubmit wrongGateway [exQuestion] initialEngine) = [] \<and>
   statuses emptyOnce (qid exQuestion) = Some INCORRECT_RETRY \<and>
   feedbacks emptyOnce (qid exQuestion) = Some (localResult False) \<and>
   calls (handleGlobalSubmit wrongGateway [exQuestion] emptyOnce) =
     [\<lparr>callQuestion = exQuestion, callAnswer = [], callOutcome = wrongGateway 0 exQuestion []\<rparr>] \<and>
   statuses emptyTwice (qid exQuestion) = Some FAILED_FINAL \<and>
   Option.bind (feedbacks emptyTwice (qid exQuestion)) correctAnswer = Some (str ''Ali'')"
proof -
  have m: "exQuestion \<in> set [exQuestion]" by simp
  have n0: "nonTerminal initialEngine (qid exQuestion)"
    by (simp add: nonTerminal_def getQuestionState_def initialEngine_def)
  have e0: "trim (answer (getQuestionState initialEngine (qid exQuestion))) = []"
    by (simp add: getQuestionState_def initialEngine_def trim_def)
  have a0: "attempt (getQuestionState initialEngine (qid exQuestion)) = 0"
    by (simp add: getQuestionState_def initialEngine_def)
  have n1: "nonTerminal emptyOnce (qid exQuestion)"
    by (simp add: nonTerminal_def getQuestionState_def emptyOnce_eval exQuestion_def)
  have e1: "trim (answer (getQuestionState emptyOnce (qid exQuestion))) = []"
    by (simp add: getQuestionState_def emptyOnce_eval trim_def)
  have a1: "0 < attempt (getQuestionState emptyOnce (qid exQuestion))"
    by (simp add: getQuestionState_def emptyOnce_eval exQuestion_def)
  from empty_answer_protocol [OF m n0 e0, of wrongGateway] a0 initial_submit_not_alerted
  have first: "set (calls (handleGlobalSubmit wrongGateway [exQuestion] initialEngine)) = {} \<and>
      statuses emptyOnce (qid exQuestion) = Some INCORRECT_RETRY \<and>
      feedbacks emptyOnce (qid exQuestion) = Some (localResult False)"
    unfolding emptyOnce_def [symmetric]
    by (simp add: emptyOnce_eval exQuestion_def handleGlobalSubmit_def questionsToEvaluate_def
      getQuestionState_def initialEngine_def Let_def trim_def applyResult_def)
  from empty_answer_protocol [OF m n1 e1, of wrongGateway] a1 retry_submit_eval
  have second: "statuses emptyTwice (qid exQuestion) = Some FAILED_FINAL \<and>
      Option.bind (feedbacks emptyTwice (qid exQuestion)) correctAnswer = Some (str ''Ali'')"
    unfolding emptyTwice_def [symmetric]
    by (simp add: emptyTwice_eval exQuestion_def)
  from first second retry_submit_eval show ?thesis by simp
qed

text \<open>
  C5 as stated fails three times. At attempt 0, when the Gateway rejects the call for
  another question, the empty question stays as it was, not at \<open>INCORRECT_RETRY\<close>.
  On the retry of two empty questions, when the Gateway rejects the call for the first,
  none is made for the second. And with two empty questions of the same id on the
  retry, both calls are made for the first of them.
\<close>
theorem empty_answer_protocol_counterexample:
  "attempt (getQuestionState typedEngine 2) = 0 \<and>
   trim (answer (getQuestionState typedEngine 2)) = [] \<and>
   alerted (handleGlobalSubmit rejectingGateway [exQuestion, secondQuestion] typedEngine) \<and>
   statuses (engineAfter
     (handleGlobalSubmit rejectingGateway [exQuestion, secondQuestion] typedEngine)) 2 = None \<and>
   attempt (getQuestionState bothEmptyOnce 2) = 1 \<and>
   statuses bothEmptyOnce 2 = Some INCORRECT_RETRY \<and>
   trim (answer (getQuestionState bothEmptyOnce 2)) = [] \<and>
   calls (handleGlobalSubmit rejectingGateway [exQuestion, secondQuestion] bothEmptyOnce) =
     [\<lparr>callQuestion = exQuestion, callAnswer = [], callOutcome = Inl TransportError\<rparr>] \<and>
   attempt (getQuestionState twinEmptyOnce 1) = 1 \<and>
   statuses twinEmptyOnce 1 = Some INCORRECT_RETRY \<and>
   trim (answer (getQuestionState twinEmptyOnce 1)) = [] \<and>
   twinQuestion \<noteq> exQuestion \<and>
   alerted (handleGlobalSubmit wrongGateway [exQuestion, twinQuestion] twinEmptyOnce) = False \<and>
   calls (handleGlobalSubmit wrongGateway [exQuestion, twinQuestion] twinEmptyOnce) =
     [\<lparr>callQuestion = exQuestion, callAnswer = [], callOutcome = wrongGateway 0 exQuestion []\<rparr>,
      \<lparr>callQuestion = exQuestion, callAnswer = [], callOutcome = wrongGateway 1 exQuestion []\<rparr>]"
proof -
  have a: "handleGlobalSubmit rejectingGateway [exQuestion, secondQuestion] typedEngine =
      \<lparr>engineAfter = typedEngine,
        calls = [\<lparr>callQuestion = exQuestion, callAnswer = str ''x'',
                   callOutcome = Inl TransportError\<rparr>],
        alerted = True\<rparr>"
    by (simp add: typedEngine_eval handleGlobalSubmit_def questionsToEvaluate_def
      getQuestionState_def Let_def trim_def str_def isWhiteSpace_def rejectingGateway_def
      applyResult_def exQuestion_def secondQuestion_def)
  have b: "handleGlobalSubmit rejectingGateway [exQuestion, secondQuestion] bothEmptyOnce =
      \<lparr>engineAfter = bothEmptyOnce,
        calls = [\<lparr>callQuestion = exQuestion, callAnswer = [], callOutcome = Inl TransportError\<rparr>],
        alerted = True\<rparr>"
    by (simp add: bothEmptyOnce_eval handleGlobalSubmit_def questionsToEvaluate_def
      getQuestionState_def Let_def trim_def rejectingGateway_def localResult_def
      applyResult_def exQuestion_def secondQuestion_def)
  have c: "alerted (handleGlobalSubmit wrongGateway [exQuestion, twinQuestion] twinEmptyOnce) = False \<and>
      calls (handleGlobalSubmit wrongGateway [exQuestion, twinQuestion] twinEmptyOnce) =
     [\<lparr>callQuestion = exQuestion, callAnswer = [], callOutcome = wrongGateway 0 exQuestion []\<rparr>,
      \<lparr>callQuestion = exQuestion, callAnswer = [], callOutcome = wrongGateway 1 exQuestion []\<rparr>]"
    by (simp add: twinEmptyOnce_eval handleGlobalSubmit_def questionsToEvaluate_def
      getQuestionState_def Let_def trim_def wrongGateway_def localResult_def
      applyResult_def exQuestion_def twinQuestion_def)
  have d: "twinQuestion \<noteq> exQuestion"
    by (simp add: twinQuestion_def exQuestion_def)
  from c d show ?thesis
    unfolding a b
    by (simp add: typedEngine_eval bothEmptyOnce_eval twinEmptyOnce_eval getQuestionState_def
        trim_def)
qed

text \<open>
  C7 (completion totality). When \<open>isAllComplete\<close> holds, every question's status is
  \<open>CORRECT\<close> or \<open>FAILED_FINAL\<close>, and the compiled results are as many as the
  questions, carry the questions in their original order, and have \<open>isCorrect\<close> true
  exactly for the questions whose status is \<open>CORRECT\<close>.
\<close>
theorem completion_totality:
  assumes "isAllComplete qs s"
  shows "(\<forall>q \<in> set qs. status (getQuestionState s (qid q)) = CORRECT \<or>
            status (getQuestionState s (qid q)) = FAILED_FINAL) \<and>
     length (finishQuiz qs s) = length qs \<and>
     map rQuestion (finishQuiz qs s) = qs \<and>
     (\<forall>k < length qs. rIsCorrect (finishQuiz qs s ! k) =
        (status (getQuestionState s (qid (qs ! k))) = CORRECT))"
proof -
  from assms have "\<forall>q \<in> set qs. status (getQuestionState s (qid q)) = CORRECT \<or>
            status (getQuestionState s (qid q)) = FAILED_FINAL"
    by (auto simp: isAllComplete_def list_all_iff getQuestionState_def)
  moreover have "length (finishQuiz qs s) = length qs"
    by (simp add: finishQuiz_def)
  moreover have "map rQuestion (finishQuiz qs s) = qs"
    by (simp add: finishQuiz_def comp_def)
  moreover have "\<forall>k < length qs. rIsCorrect (finishQuiz qs s ! k) =
        (status (getQuestionState s (qid (qs ! k))) = CORRECT)"
    by (auto simp: finishQuiz_def getQuestionState_def split: option.splits)
  ultimately show ?thesis by blast
qed

theorem completion_totality_witness:
  "isAllComplete [exQuestion] emptyTwice \<and>
   finishQuiz [exQuestion] emptyTwice =
     [\<lparr>rQuestion = exQuestion, rUserAnswer = None, rIsCorrect = False,
       rFeedback = Some (str ''Relis''), rCorrectAnswer = Some (str ''Ali'')\<rparr>]"
proof -
  have c: "isAllComplete [exQuestion] emptyTwice"
    by (simp add: isAllComplete_def emptyTwice_eval exQuestion_def)
  from completion_totality [OF c] c show ?thesis
    by (simp add: finishQuiz_def emptyTwice_eval exQuestion_def)
qed

text \<open>
  C10 (untyped answers). For a question whose id has no entry in the answers map, the
  compiled result has \<open>userAnswer\<close> undefined, where \<open>getQuestionState\<close> gives the
  empty string. The state of the example is a completed quiz nobody typed into.
\<close>
theorem untyped_answer_undefined:
  assumes "k < length qs" and "answers s (qid (qs ! k)) = None"
  shows "rQuestion (finishQuiz qs s ! k) = qs ! k \<and>
     rUserAnswer (finishQuiz qs s ! k) = None \<and>
     answer (getQuestionState s (qid (qs ! k))) = []"
  using assms by (simp add: finishQuiz_def getQuestionState_def)

theorem untyped_answer_undefined_witness:
  "isAllComplete [exQuestion] emptyTwice \<and>
   answers emptyTwice (qid exQuestion) = None \<and>
   rUserAnswer (finishQuiz [exQuestion] emptyTwice ! 0) = None \<and>
   answer (getQuestionState emptyTwice (qid exQuestion)) = []"
proof -
  have k: "0 < length [exQuestion]" by simp
  have a: "answers emptyTwice (qid ([exQuestion] ! 0)) = None"
    by (simp add: emptyTwice_eval)
  have c: "isAllComplete [exQuestion] emptyTwice"
    by (simp add: isAllComplete_def emptyTwice_eval exQuestion_def)
  from untyped_answer_undefined [OF k a] a c show ?thesis by simp
qed

section \<open>Session Orchestrator: the claims\<close>

lemma foldl_addPoints:
  "foldl addPoints (a, b, c) rs =
     (a + correctOfType LITERAL rs, b + correctOfType INFERENTIAL rs,
      c + correctOfType EVALUATIVE rs)"
  by (induction rs arbitrary: a b c) (auto simp: addPoints_def correctOfType_def Let_def)

lemma correctOfType_finishQuiz:
  "correctOfType t (finishQuiz qs s) \<le> length (filter (\<lambda>q. qtype q = t) qs)"
proof -
  have "correctOfType t (finishQuiz qs s) =
      length (filter (\<lambda>q. statuses s (qid q) = Some CORRECT \<and> qtype q = t) qs)"
    by (simp add: correctOfType_def finishQuiz_def filter_map comp_def)
  also have "\<dots> \<le> length (filter (\<lambda>q. qtype q = t) qs)"
    by (induction qs) auto
  finally show ?thesis .
qed

lemma finalScores_calculateScores:
  "finalScores (calculateScores gw rs a) =
     \<lparr>literal = correctOfType LITERAL rs, inferential = correctOfType INFERENTIAL rs,
      evaluative = correctOfType EVALUATIVE rs,
      total = correctOfType LITERAL rs + correctOfType INFERENTIAL rs + correctOfType EVALUATIVE rs\<rparr>"
  by (simp add: calculateScores_def foldl_addPoints Let_def split: sum.splits)

text \<open>
  C8 (scores). For the results compiled from a quiz of four literal, four inferential
  and two evaluative questions, \<open>calculateScores\<close> sets each score to the number of
  correct results of its type (one point each, nothing in between), so that literal and
  inferential are at most 4, evaluative at most 2, and the total is their sum, at most
  10. The scores are natural numbers, so none is negative.
\<close>
theorem score_bounds:
  assumes "composition442 qs"
  shows "literal (finalScores (calculateScores gw (finishQuiz qs s) a)) =
       correctOfType LITERAL (finishQuiz qs s) \<and>
     inferential (finalScores (calculateScores gw (finishQuiz qs s) a)) =
       correctOfType INFERENTIAL (finishQuiz qs s) \<and>
     evaluative (finalScores (calculateScores gw (finishQuiz qs s) a)) =
       correctOfType EVALUATIVE (finishQuiz qs s) \<and>
     literal (finalScores (calculateScores gw (finishQuiz qs s) a)) \<le> 4 \<and>
     inferential (finalScores (calculateScores gw (finishQuiz qs s) a)) \<le> 4 \<and>
     evaluative (finalScores (calculateScores gw (finishQuiz qs s) a)) \<le> 2 \<and>
     total (finalScores (calculateScores gw (finishQuiz qs s) a)) =
       literal (finalScores (calculateScores gw (finishQuiz qs s) a)) +
       inferential (finalScores (calculateScores gw (finishQuiz qs s) a)) +
       evaluative (finalScores (calculateScores gw (finishQuiz qs s) a)) \<and>
     total (finalScores (calculateScores gw (finishQuiz qs s) a)) \<le> 10"
proof -
  from assms correctOfType_finishQuiz [of LITERAL qs s]
    correctOfType_finishQuiz [of INFERENTIAL qs s] correctOfType_finishQuiz [of EVALUATIVE qs s]
  have "correctOfType LITERAL (finishQuiz qs s) \<le> 4"
    "correctOfType INFERENTIAL (finishQuiz qs s) \<le> 4"
    "correctOfType EVALUATIVE (finishQuiz qs s) \<le> 2"
    by (simp_all add: composition442_def)
  then show ?thesis by (simp add: finalScores_calculateScores)
qed

theorem score_bounds_witness:
  "composition442 tenQuestions \<and>
   finalScores (calculateScores bravoFeedback (finishQuiz tenQuestions markedEngine) initialApp) =
     \<lparr>literal = 2, inferential = 3, evaluative = 0, total = 5\<rparr>"
proof -
  have c: "composition442 tenQuestions"
    by (simp add: composition442_def tenQuestions_def)
  have e: "correctOfType LITERAL (finishQuiz tenQuestions markedEngine) = 2 \<and>
      correctOfType INFERENTIAL (finishQuiz tenQuestions markedEngine) = 3 \<and>
      correctOfType EVALUATIVE (finishQuiz tenQuestions markedEngine) = 0"
    by (simp add: correctOfType_def finishQuiz_def tenQuestions_def markedEngine_def
        initialEngine_def)
  from score_bounds [OF c, of bravoFeedback markedEngine initialApp] c e show ?thesis
    by (cases "finalScores (calculateScores bravoFeedback (finishQuiz tenQuestions markedEngine)
        initialApp)") simp
qed

text \<open>
  C9 (quit). A confirmed quit resets \<open>userInfo\<close>, \<open>storyData\<close> and \<open>results\<close> and
  goes to \<open>LOGIN\<close>; \<open>finalScores\<close> and \<open>finalFeedback\<close> stay as they were. A
  declined quit changes nothing. No other handler writes the two fields, until
  \<open>calculateScores\<close> of the next session: it always overwrites \<open>finalScores\<close>, and
  \<open>finalFeedback\<close> once the final-feedback call has resolved.
\<close>
theorem quit_keeps_final_scores:
  "handleQuit True a = a\<lparr>userInfo := \<lparr>firstName = [], lastName = []\<rparr>, storyData := None,
       results := [], appState := LOGIN\<rparr> \<and>
   finalScores (handleQuit True a) = finalScores a \<and>
   finalFeedback (handleQuit True a) = finalFeedback a \<and>
   handleQuit False a = a \<and>
   finalScores (changeFirstName v a) = finalScores a \<and>
   finalFeedback (changeFirstName v a) = finalFeedback a \<and>
   finalScores (changeLastName v a) = finalScores a \<and>
   finalFeedback (changeLastName v a) = finalFeedback a \<and>
   finalScores (handleLogin a) = finalScores a \<and>
   finalFeedback (handleLogin a) = finalFeedback a \<and>
   finalScores (startAssessment outcome url a) = finalScores a \<and>
   finalFeedback (startAssessment outcome url a) = finalFeedback a \<and>
   finalScores (handleReadingComplete a) = finalScores a \<and>
   finalFeedback (handleReadingComplete a) = finalFeedback a \<and>
   finalScores (calculateScores gw rs a) =
     \<lparr>literal = correctOfType LITERAL rs, inferential = correctOfType INFERENTIAL rs,
      evaluative = correctOfType EVALUATIVE rs,
      total = correctOfType LITERAL rs + correctOfType INFERENTIAL rs + correctOfType EVALUATIVE rs\<rparr> \<and>
   finalFeedback (calculateScores gw rs a) =
     (case gw (correctOfType LITERAL rs + correctOfType INFERENTIAL rs + correctOfType EVALUATIVE rs)
            10 (firstName (userInfo a)) of
        Inl e \<Rightarrow> finalFeedback a | Inr feedbackText \<Rightarrow> feedbackText)"
  by (simp add: handleQuit_def changeFirstName_def changeLastName_def handleLogin_def
      startAssessment_def handleReadingComplete_def finalScores_calculateScores
      calculateScores_def foldl_addPoints Let_def split: sum.splits)

theorem quit_keeps_final_scores_witness:
  "appState (handleQuit True (calculateScores bravoFeedback
      (finishQuiz tenQuestions markedEngine) initialApp)) = LOGIN \<and>
   results (handleQuit True (calculateScores bravoFeedback
      (finishQuiz tenQuestions markedEngine) initialApp)) = [] \<and>
   total (finalScores (handleQuit True (calculateScores bravoFeedback
      (finishQuiz tenQuestions markedEngine) initialApp))) = 5 \<and>
   finalFeedback (handleQuit True (calculateScores bravoFeedback
      (finishQuiz tenQuestions markedEngine) initialApp)) = str ''Bravo''"
proof -
  let ?A = "calculateScores bravoFeedback (finishQuiz tenQuestions markedEngine) initialApp"
  have e: "correctOfType LITERAL (finishQuiz tenQuestions markedEngine) = 2 \<and>
      correctOfType INFERENTIAL (finishQuiz tenQuestions markedEngine) = 3 \<and>
      correctOfType EVALUATIVE (finishQuiz tenQuestions markedEngine) = 0"
    by (simp add: correctOfType_def finishQuiz_def tenQuestions_def markedEngine_def
        initialEngine_def)
  have f: "finalFeedback ?A = str ''Bravo''"
    by (simp add: calculateScores_def bravoFeedback_def Let_def split: prod.splits)
  from quit_keeps_final_scores [where a = ?A and v = "[]" and outcome = "Inl TransportError"
      and url = "[]" and gw = bravoFeedback and rs = "[]"]
  have 1: "handleQuit True ?A = ?A\<lparr>userInfo := \<lparr>firstName = [], lastName = []\<rparr>,
       storyData := None, results := [], appState := LOGIN\<rparr>"
    and 2: "finalScores (handleQuit True ?A) = finalScores ?A"
    and 3: "finalFeedback (handleQuit True ?A) = finalFeedback ?A"
    by blast+
  have "appState (handleQuit True ?A) = LOGIN" "results (handleQuit True ?A) = []"
    unfolding 1 by simp_all
  moreover have "total (finalScores (handleQuit True ?A)) = 5"
    unfolding 2 using e by (simp add: finalScores_calculateScores)
  moreover have "finalFeedback (handleQuit True ?A) = str ''Bravo''"
    unfolding 3 by (rule f)
  ultimately show ?thesis by simp
qed

section \<open>LLM Gateway: the claims\<close>

lemma map_of_setField: "map_of (setField fs k v) k = Some v"
  by (induction fs) auto

lemma map_of_setField_other: "k' \<noteq> k \<Longrightarrow> map_of (setField fs k v) k' = map_of fs k'"
  by (induction fs) auto

lemma getProp_setProp:
  "setProp d k v = Inr d' \<Longrightarrow> getProp d' k = Inr (Some v)"
  by (cases d) (auto simp: map_of_setField)

lemma getProp_setProp_other:
  "setProp d k v = Inr d' \<Longrightarrow> k' \<noteq> k \<Longrightarrow> getProp d' k' = getProp d k'"
  by (cases d) (auto simp: map_of_setField_other)

lemma trim_contentSentinel: "contentSentinel \<noteq> [] \<and> trim contentSentinel \<noteq> []"
  by (simp add: contentSentinel_def trim_def str_def isWhiteSpace_def)

lemma contentMissing_False:
  "contentMissing c = Inr False \<Longrightarrow> \<exists>t. c = Some (JStr t) \<and> t \<noteq> [] \<and> trim t \<noteq> []"
  by (cases c rule: contentMissing.cases) (auto split: if_splits)

lemma contentMissing_True:
  "contentMissing c = Inr True \<Longrightarrow> c = Some (JStr t) \<Longrightarrow> trim t = []"
  by (auto simp: trim_def)

lemma not_isHedging_empty: "\<not> isHedging []"
  by (simp add: isHedging_def str_def)

lemma normalize_sanitized:
  assumes "toLowerCase [] = []" and "normalize toLowerCase parsed = Inr r"
  shows "\<exists>ca. correctAnswer r = Some ca \<and> \<not> isHedging (toLowerCase ca) \<and>
     (\<forall>t. getProp parsed (str ''correctAnswer'') = Inr (Some (JStr t)) \<longrightarrow>
        (if isHedging (toLowerCase (trim t))
         then ca = [] \<and>
           (\<forall>fb. getProp parsed (str ''feedback'') = Inr fb \<and> \<not> truthy fb \<longrightarrow>
              feedback r = neutralFeedback)
         else ca = trim t))"
  using assms not_isHedging_empty
  by (auto simp: normalize_def Let_def split: sum.splits)

lemma refusal_facts:
  "trim refusalText = refusalText \<and> isHedging (toLowerLatin1 refusalText)"
  by (simp add: isHedging_def refusalText_def toLowerLatin1_def trim_def str_def isWhiteSpace_def)

lemma notProvided_facts:
  "trim notProvidedText = notProvidedText \<and> \<not> isHedging (toLowerLatin1 notProvidedText)"
  by (simp add: isHedging_def notProvidedText_def toLowerLatin1_def trim_def str_def isWhiteSpace_def)

text \<open>
  C1 (assessment invariants), as the code has it. When \<open>generateAssessment\<close> returns
  a value, the model call has resolved, the helper has extracted a raw text and
  \<open>JSON.parse\<close> has made a value of it. Every property of the value returned other
  than \<open>content\<close> is the parsed value's (so the questions, their types and ids, and
  the glossary are what the model's JSON carries, unchecked). When the parsed
  \<open>content\<close> is a string that is not blank, the value returned is the parsed value
  itself; when it is anything else, the \<open>content\<close> returned is the sentinel. Either
  way the \<open>content\<close> returned is a string, not empty and not blank.
\<close>
theorem assessment_content_only:
  assumes "generateAssessment JSON_parse generateContent base64Image = Inr v"
  shows "\<exists>response raw data.
     generateContent (cleanBase64 base64Image) = Inr response \<and>
     extractTextFromResponse response = Inr raw \<and>
     JSON_parse raw = Some data \<and>
     (\<forall>k. k \<noteq> str ''content'' \<longrightarrow> getProp v k = getProp data k) \<and>
     (\<forall>t. getProp data (str ''content'') = Inr (Some (JStr t)) \<and> trim t \<noteq> [] \<longrightarrow> v = data) \<and>
     ((\<forall>t. getProp data (str ''content'') = Inr (Some (JStr t)) \<longrightarrow> trim t = []) \<longrightarrow>
        getProp v (str ''content'') = Inr (Some (JStr contentSentinel))) \<and>
     (\<exists>c. getProp v (str ''content'') = Inr (Some (JStr c)) \<and> c \<noteq> [] \<and> trim c \<noteq> [])"
proof -
  from assms obtain response raw d c m where
    g0: "generateContent (cleanBase64 base64Image) = Inr response" and
    x: "extractTextFromResponse response = Inr raw" and
    p: "JSON_parse raw = Some d" and
    g: "getProp d (str ''content'') = Inr c" and
    cm: "contentMissing c = Inr m" and
    fin: "(if m then setProp d (str ''content'') (JStr contentSentinel) else Inr d) = Inr v"
    by (auto simp: generateAssessment_def split: sum.splits option.splits bool.splits)
  have rest: "(\<forall>k. k \<noteq> str ''content'' \<longrightarrow> getProp v k = getProp d k) \<and>
     (\<forall>t. getProp d (str ''content'') = Inr (Some (JStr t)) \<and> trim t \<noteq> [] \<longrightarrow> v = d) \<and>
     ((\<forall>t. getProp d (str ''content'') = Inr (Some (JStr t)) \<longrightarrow> trim t = []) \<longrightarrow>
        getProp v (str ''content'') = Inr (Some (JStr contentSentinel))) \<and>
     (\<exists>c. getProp v (str ''content'') = Inr (Some (JStr c)) \<and> c \<noteq> [] \<and> trim c \<noteq> [])"
  proof (cases m)
    case True
    with fin have sp: "setProp d (str ''content'') (JStr contentSentinel) = Inr v" by simp
    from True cm have cmT: "contentMissing c = Inr True" by simp
    have 1: "\<forall>k. k \<noteq> str ''content'' \<longrightarrow> getProp v k = getProp d k"
      using getProp_setProp_other [OF sp] by blast
    have 2: "\<forall>t. getProp d (str ''content'') = Inr (Some (JStr t)) \<and> trim t \<noteq> [] \<longrightarrow> v = d"
      using g contentMissing_True [OF cmT] by auto
    have 3: "getProp v (str ''content'') = Inr (Some (JStr contentSentinel))"
      by (rule getProp_setProp [OF sp])
    from 1 2 3 trim_contentSentinel show ?thesis by blast
  next
    case False
    with cm have "contentMissing c = Inr False" by simp
    from contentMissing_False [OF this] obtain t where
      c: "c = Some (JStr t)" and t: "t \<noteq> []" "trim t \<noteq> []" by blast
    from False fin have vd: "v = d" by simp
    with g c t show ?thesis by auto
  qed
  with g0 x p show ?thesis by blast
qed

theorem assessment_content_only_witness:
  "getProp (JObj [(str ''content'', JStr contentSentinel)]) (str ''content'') =
     Inr (Some (JStr contentSentinel)) \<and>
   getProp (JObj [(str ''content'', JStr contentSentinel)]) (str ''questions'') = Inr None \<and>
   trim contentSentinel \<noteq> []"
proof -
  have "generateAssessment emptyObjectParse noTextImageClient (str ''AAAA'') =
     Inr (JObj [(str ''content'', JStr contentSentinel)])"
    by (simp add: generateAssessment_def emptyObjectParse_def noTextImageClient_def
      noTextResponse_def extractTextFromResponse_def cleanBase64_def str_def)
  from assessment_content_only [OF this] trim_contentSentinel show ?thesis
    by (simp add: str_def)
qed

text \<open>
  C1 as stated fails: when the model's response carries no text, the raw text is
  \<open>{}\<close>, and the value returned is an object with the sentinel content and neither
  questions nor glossary.
\<close>
theorem assessment_invariants_counterexample:
  "generateAssessment emptyObjectParse noTextImageClient (str ''AAAA'') =
     Inr (JObj [(str ''content'', JStr contentSentinel)]) \<and>
   \<not> storyInvariants (JObj [(str ''content'', JStr contentSentinel)])"
  by (simp add: generateAssessment_def emptyObjectParse_def noTextImageClient_def
      noTextResponse_def extractTextFromResponse_def cleanBase64_def storyInvariants_def str_def)

text \<open>
  C2 (failures of \<open>evaluateAnswer\<close>), as the code has it. When the model call rejects,
  \<open>evaluateAnswer\<close> rejects with the same error; when the model call resolves and
  reading the text of the response throws, \<open>evaluateAnswer\<close> throws the same. When
  the raw text has been read, \<open>evaluateAnswer\<close> returns a result; and when the raw
  text does not parse, or parses to \<open>null\<close>, that result is the neutral one:
  \<open>isCorrect\<close> false, the technical-problem feedback, and the empty string as
  \<open>correctAnswer\<close>.
\<close>
theorem evaluateAnswer_failure_handling:
  "(generateContent (content story) (qtext question) studentAnswer = Inl e \<longrightarrow>
      evaluateAnswer JSON_parse toLowerCase generateContent question studentAnswer story = Inl e) \<and>
   (generateContent (content story) (qtext question) studentAnswer = Inr response \<longrightarrow>
      (extractTextFromResponse response = Inl e \<longrightarrow>
         evaluateAnswer JSON_parse toLowerCase generateContent question studentAnswer story = Inl e) \<and>
      (extractTextFromResponse response = Inr raw \<longrightarrow>
         (\<exists>r. evaluateAnswer JSON_parse toLowerCase generateContent question studentAnswer story
                = Inr r) \<and>
         (JSON_parse raw = None \<or> JSON_parse raw = Some JNull \<longrightarrow>
            evaluateAnswer JSON_parse toLowerCase generateContent question studentAnswer story
              = Inr fallbackResult \<and>
            isCorrect fallbackResult = False \<and> feedback fallbackResult = technicalFeedback \<and>
            correctAnswer fallbackResult = Some [])))"
  by (auto simp: evaluateAnswer_def normalize_def fallbackResult_def split: sum.splits option.splits)

theorem evaluateAnswer_failure_handling_witness:
  "evaluateAnswer emptyObjectParse toLowerLatin1 failingClient exQuestion (str ''Ali'') exStory
     = Inl TransportError \<and>
   evaluateAnswer emptyObjectParse toLowerLatin1 throwingTextClient exQuestion (str ''Ali'') exStory
     = Inl TypeError \<and>
   evaluateAnswer emptyObjectParse toLowerLatin1 garbledClient exQuestion (str ''Ali'') exStory
     = Inr fallbackResult"
proof -
  have a: "failingClient (content exStory) (qtext exQuestion) (str ''Ali'') = Inl TransportError"
    by (simp add: failingClient_def)
  have t: "throwingTextClient (content exStory) (qtext exQuestion) (str ''Ali'') =
      Inr (Some \<lparr>output_text = None, response_text = Some (Inl TypeError), candidate_text = None\<rparr>)"
    by (simp add: throwingTextClient_def)
  have tx: "extractTextFromResponse
      (Some \<lparr>output_text = None, response_text = Some (Inl TypeError), candidate_text = None\<rparr>)
      = Inl TypeError"
    by (simp add: extractTextFromResponse_def)
  have b: "garbledClient (content exStory) (qtext exQuestion) (str ''Ali'') =
      Inr (Some \<lparr>output_text = Some (str ''Desole''), response_text = None, candidate_text = None\<rparr>)"
    by (simp add: garbledClient_def)
  have bx: "extractTextFromResponse
      (Some \<lparr>output_text = Some (str ''Desole''), response_text = None, candidate_text = None\<rparr>)
      = Inr (str ''Desole'')"
    by (simp add: extractTextFromResponse_def)
  have c: "emptyObjectParse (str ''Desole'') = None"
    by (simp add: emptyObjectParse_def str_def)
  note h = evaluateAnswer_failure_handling [where JSON_parse = emptyObjectParse
      and toLowerCase = toLowerLatin1 and question = exQuestion and studentAnswer = "str ''Ali''"
      and story = exStory]
  from h [where generateContent = failingClient and e = TransportError] a
  have 1: "evaluateAnswer emptyObjectParse toLowerLatin1 failingClient exQuestion (str ''Ali'')
      exStory = Inl TransportError" by blast
  from h [where generateContent = throwingTextClient and e = TypeError and response =
      "Some \<lparr>output_text = None, response_text = Some (Inl TypeError), candidate_text = None\<rparr>"]
    t tx
  have 2: "evaluateAnswer emptyObjectParse toLowerLatin1 throwingTextClient exQuestion (str ''Ali'')
      exStory = Inl TypeError" by blast
  from h [where generateContent = garbledClient and raw = "str ''Desole''" and response =
      "Some \<lparr>output_text = Some (str ''Desole''), response_text = None, candidate_text = None\<rparr>"]
    b bx c
  have 3: "evaluateAnswer emptyObjectParse toLowerLatin1 garbledClient exQuestion (str ''Ali'')
      exStory = Inr fallbackResult" by blast
  from 1 2 3 show ?thesis by blast
qed

text \<open>C2 as stated fails: a transport error is not turned into a result.\<close>
theorem evaluateAnswer_transport_counterexample:
  "evaluateAnswer emptyObjectParse toLowerLatin1 failingClient exQuestion (str ''Ali'') exStory
     = Inl TransportError"
  by (simp add: evaluateAnswer_def failingClient_def)

text \<open>
  C6 (sanitization), as the code has it. Let the model call resolve, the raw text be
  read and parse, and let \<open>toLowerCase\<close> be any function that maps the empty string to
  itself. Then \<open>evaluateAnswer\<close> returns a result whose \<open>correctAnswer\<close>,
  lower-cased, does not pass the test of the cleaning step: it holds neither the
  refusal phrase (\<open>je ne peux pas repondre\<close>, with an acute on the first e of the
  last word), nor \<open>texte\<close> and \<open>question\<close> together with \<open>pas fournis\<close> or
  \<open>non fournis\<close>. When the model's own
  \<open>correctAnswer\<close>, trimmed and lower-cased, passes the test, the result's is the
  empty string, and the neutral feedback stands in for a falsy feedback; when it does
  not pass, the result's is the model's, trimmed, whatever it says. The
  \<open>evaluateAnswer\<close> of the first variant returns the parsed value as it is.
\<close>
theorem sanitization:
  assumes "toLowerCase [] = []"
    and "generateContent (content story) (qtext question) studentAnswer = Inr response"
    and "extractTextFromResponse response = Inr raw"
    and "JSON_parse raw = Some parsed"
  shows "(\<exists>r ca.
     evaluateAnswer JSON_parse toLowerCase generateContent question studentAnswer story = Inr r \<and>
     correctAnswer r = Some ca \<and> \<not> isHedging (toLowerCase ca) \<and>
     (\<forall>t. getProp parsed (str ''correctAnswer'') = Inr (Some (JStr t)) \<longrightarrow>
        (if isHedging (toLowerCase (trim t))
         then ca = [] \<and>
           (\<forall>fb. getProp parsed (str ''feedback'') = Inr fb \<and> \<not> truthy fb \<longrightarrow>
              feedback r = neutralFeedback)
         else ca = trim t))) \<and>
     evaluateAnswer1 JSON_parse generateContent question studentAnswer story = Inr parsed"
proof -
  have v1: "evaluateAnswer1 JSON_parse generateContent question studentAnswer story = Inr parsed"
    using assms(2,3,4) by (simp add: evaluateAnswer1_def)
  have v3: "\<exists>r ca.
     evaluateAnswer JSON_parse toLowerCase generateContent question studentAnswer story = Inr r \<and>
     correctAnswer r = Some ca \<and> \<not> isHedging (toLowerCase ca) \<and>
     (\<forall>t. getProp parsed (str ''correctAnswer'') = Inr (Some (JStr t)) \<longrightarrow>
        (if isHedging (toLowerCase (trim t))
         then ca = [] \<and>
           (\<forall>fb. getProp parsed (str ''feedback'') = Inr fb \<and> \<not> truthy fb \<longrightarrow>
              feedback r = neutralFeedback)
         else ca = trim t))"
  proof (cases "normalize toLowerCase parsed")
    case (Inl e)
    then have "parsed = JNull"
      by (cases parsed) (simp_all add: normalize_def Let_def)
    with Inl assms not_isHedging_empty show ?thesis
      by (simp add: evaluateAnswer_def fallbackResult_def)
  next
    case (Inr r)
    from normalize_sanitized [OF assms(1) Inr] Inr assms(2,3,4) show ?thesis
      by (simp add: evaluateAnswer_def)
  qed
  from v3 v1 show ?thesis by blast
qed

theorem sanitization_witness:
  "isHedging (toLowerLatin1 (trim refusalText)) \<and>
   correctAnswer (projr (evaluateAnswer (answerParse refusalText) toLowerLatin1
      (answerClient refusalText) exQuestion (str ''Ali'') exStory)) = Some [] \<and>
   feedback (projr (evaluateAnswer (answerParse refusalText) toLowerLatin1
      (answerClient refusalText) exQuestion (str ''Ali'') exStory)) = neutralFeedback \<and>
   evaluateAnswer1 (answerParse refusalText) (answerClient refusalText) exQuestion
      (str ''Ali'') exStory =
     Inr (JObj [(str ''isCorrect'', JBool False), (str ''score'', JNum 0),
                (str ''correctAnswer'', JStr refusalText)])"
proof -
  have l: "toLowerLatin1 [] = []" by (simp add: toLowerLatin1_def)
  have c: "answerClient refusalText (content exStory) (qtext exQuestion) (str ''Ali'') =
      Inr (Some \<lparr>output_text = Some (answerJson refusalText), response_text = None,
        candidate_text = None\<rparr>)"
    by (simp add: answerClient_def)
  have x: "extractTextFromResponse (Some \<lparr>output_text = Some (answerJson refusalText),
       response_text = None, candidate_text = None\<rparr>) = Inr (answerJson refusalText)"
    by (simp add: extractTextFromResponse_def)
  have p: "answerParse refusalText (answerJson refusalText) =
      Some (JObj [(str ''isCorrect'', JBool False), (str ''score'', JNum 0),
                       (str ''correctAnswer'', JStr refusalText)])"
    by (simp add: answerParse_def)
  have g: "getProp (JObj [(str ''isCorrect'', JBool False), (str ''score'', JNum 0),
                       (str ''correctAnswer'', JStr refusalText)]) (str ''correctAnswer'') =
        Inr (Some (JStr refusalText))"
    by (simp add: str_def)
  have f: "getProp (JObj [(str ''isCorrect'', JBool False), (str ''score'', JNum 0),
                       (str ''correctAnswer'', JStr refusalText)]) (str ''feedback'') = Inr None"
    by (simp add: str_def)
  have h: "isHedging (toLowerLatin1 (trim refusalText))"
    using refusal_facts by simp
  from sanitization [where toLowerCase = toLowerLatin1 and generateContent = "answerClient refusalText"
      and story = exStory and question = exQuestion and studentAnswer = "str ''Ali''"
      and JSON_parse = "answerParse refusalText", OF l c x p] g f h
  show ?thesis by auto
qed

text \<open>
  C6 as stated fails twice. The first variant returns a \<open>correctAnswer\<close> that holds
  the refusal phrase. And the last variant lets through a statement that the text was
  not provided when it is not in the words of the test.
\<close>
theorem sanitization_counterexample:
  "evaluateAnswer1 (answerParse refusalText) (answerClient refusalText) exQuestion (str ''Ali'')
      exStory =
     Inr (JObj [(str ''isCorrect'', JBool False), (str ''score'', JNum 0),
                (str ''correctAnswer'', JStr refusalText)]) \<and>
   isHedging (toLowerLatin1 refusalText) \<and>
   evaluateAnswer (answerParse notProvidedText) toLowerLatin1 (answerClient notProvidedText)
      exQuestion (str ''Ali'') exStory =
     Inr \<lparr>isCorrect = False, isIncomplete = None, score = Some 0,
          feedback = defaultFeedback, correctAnswer = Some notProvidedText\<rparr>"
proof -
  have 1: "evaluateAnswer1 (answerParse refusalText) (answerClient refusalText) exQuestion
      (str ''Ali'') exStory =
     Inr (JObj [(str ''isCorrect'', JBool False), (str ''score'', JNum 0),
                (str ''correctAnswer'', JStr refusalText)])"
    by (simp add: evaluateAnswer1_def answerClient_def extractTextFromResponse_def answerParse_def)
  have 2: "evaluateAnswer (answerParse notProvidedText) toLowerLatin1 (answerClient notProvidedText)
      exQuestion (str ''Ali'') exStory =
     Inr \<lparr>isCorrect = False, isIncomplete = None, score = Some 0,
          feedback = defaultFeedback, correctAnswer = Some notProvidedText\<rparr>"
    using notProvided_facts
    by (simp add: evaluateAnswer_def answerClient_def extractTextFromResponse_def
        answerParse_def normalize_def Let_def str_def)
  from 1 2 refusal_facts show ?thesis by simp
qed

end
